theory Spec2Isabelle
  imports
    Complex_Main
    "HOL-Library.Log_Nat"
    "HOL-Library.AList"
    "HOL-Library.Sublist"
    "HOL-Library.Char_ord"
    "HOL-Library.List_Lexorder"
    "HOL-Library.Multiset"
begin

section \<open>Python values used by \<^verbatim>\<open>blender_batch_render.py\<close>\<close>

text \<open>
  Python floats are modelled as exact reals: rounding, infinities and NaN are outside
  this development. \<^verbatim>\<open>int(x)\<close> on a float truncates towards zero;
  \<^verbatim>\<open>math.radians\<close> multiplies by \<open>pi / 180\<close>; \<^verbatim>\<open>math.log2\<close> raises
  \<^verbatim>\<open>ValueError\<close> on a non-positive argument.
\<close>

datatype py_error = ValueError

definition py_int :: "real \<Rightarrow> int" where
  "py_int x = (if 0 \<le> x then \<lfloor>x\<rfloor> else \<lceil>x\<rceil>)"

definition radians :: "real \<Rightarrow> real" where
  "radians d = d * pi / 180"

definition math_log2 :: "int \<Rightarrow> py_error + real" where
  "math_log2 n = (if n \<le> 0 then Inl ValueError else Inr (log 2 (real_of_int n)))"

text \<open>A JSON-serialisable Python value; a \<^verbatim>\<open>dict\<close> keeps its insertion order.\<close>

datatype jvalue =
    JInt int
  | JFloat real
  | JStr string
  | JObj "(string \<times> jvalue) list"

type_synonym metadata = "(string \<times> jvalue) list"

text \<open>\<^verbatim>\<open>d[k] = v\<close> and \<^verbatim>\<open>d.update(other)\<close> on an insertion-ordered dict.\<close>

definition dict_set :: "metadata \<Rightarrow> string \<Rightarrow> jvalue \<Rightarrow> metadata" where
  "dict_set d k v = AList.update k v d"

definition dict_update :: "metadata \<Rightarrow> metadata \<Rightarrow> metadata" where
  "dict_update d other = fold (\<lambda>(k, v) acc. AList.update k v acc) other d"

section \<open>Configuration\<close>

text \<open>The class \<^verbatim>\<open>RenderConfig\<close>, field by field, with the defaults of its constructor.\<close>

record RenderConfig =
  input_dir :: string
  output_dir :: string
  resolution :: int
  camera_angle :: real
  camera_yaw :: real
  samples :: int
  ortho_scale :: real
  pixels_per_unit :: real
  min_canvas_size :: int
  max_canvas_size :: int
  rotations :: int
  light_strength :: real
  light_angle_x :: real
  light_angle_z :: real
  formats :: "string list"
  skip_existing :: bool
  auto_crop :: bool
  scale_factor :: real
  verbose :: bool
  log_file :: "string option"

definition default_config :: RenderConfig where
  "default_config = \<lparr>
     input_dir = '''',
     output_dir = ''./rendered_sprites'',
     resolution = 512,
     camera_angle = 55,
     camera_yaw = 0,
     samples = 64,
     ortho_scale = 4,
     pixels_per_unit = 256,
     min_canvas_size = 256,
     max_canvas_size = 1024,
     rotations = 1,
     light_strength = 3,
     light_angle_x = 45,
     light_angle_z = 315,
     formats = [''.gltf'', ''.glb'', ''.obj'', ''.fbx''],
     skip_existing = False,
     auto_crop = True,
     scale_factor = 1,
     verbose = False,
     log_file = None \<rparr>"

section \<open>The scene\<close>

text \<open>
  The part of Blender's global scene that the script reads and writes: the objects with
  their type and the eight corners of their bounding box (already multiplied by
  \<^verbatim>\<open>matrix_world\<close>), the camera object, and the render resolution and output path.
  A rotation is either the Euler triple that \<^verbatim>\<open>setup_camera\<close> assigns or the
  orientation \<^verbatim>\<open>direction.to_track_quat('-Z', 'Y').to_euler()\<close> of a direction.
\<close>

type_synonym vec3 = "real \<times> real \<times> real"

datatype obj_type = MESH | EMPTY | CAMERA | LIGHT | OTHER

datatype bound_box = BoundBox vec3 vec3 vec3 vec3 vec3 vec3 vec3 vec3

fun corners :: "bound_box \<Rightarrow> vec3 list" where
  "corners (BoundBox a b c d e f g h) = [a, b, c, d, e, f, g, h]"

record scene_object =
  obj_type :: obj_type
  world_box :: bound_box

datatype rotation = Euler real real real | TrackTo vec3

record camera_object =
  location :: vec3
  rotation_euler :: rotation

record scene =
  objects :: "scene_object list"
  camera :: camera_object
  resolution_x :: int
  resolution_y :: int
  render_filepath :: string

definition vx :: "vec3 \<Rightarrow> real" where "vx v = fst v"
definition vy :: "vec3 \<Rightarrow> real" where "vy v = fst (snd v)"
definition vz :: "vec3 \<Rightarrow> real" where "vz v = snd (snd v)"

definition vsub :: "vec3 \<Rightarrow> vec3 \<Rightarrow> vec3" where
  "vsub a b = (vx a - vx b, vy a - vy b, vz a - vz b)"

text \<open>\<^verbatim>\<open>Vector.normalize()\<close>: a zero vector is left as it is.\<close>

definition normalized :: "vec3 \<Rightarrow> vec3" where
  "normalized v =
     (let n = sqrt ((vx v)\<^sup>2 + (vy v)\<^sup>2 + (vz v)\<^sup>2)
      in if n = 0 then v else (vx v / n, vy v / n, vz v / n))"

section \<open>Framing: \<^verbatim>\<open>calculate_canvas_and_position\<close>\<close>

text \<open>
  The loop over \<^verbatim>\<open>bpy.context.scene.objects\<close>: the meshes are counted and the
  running minimum and maximum, which start at plus and minus infinity, end as the least
  and greatest coordinate over every corner of every mesh.
\<close>

definition meshes :: "scene \<Rightarrow> scene_object list" where
  "meshes sc = filter (\<lambda>obj. obj_type obj = MESH) (objects sc)"

definition mesh_count :: "scene \<Rightarrow> nat" where
  "mesh_count sc = length (meshes sc)"

definition world_coords :: "scene \<Rightarrow> vec3 list" where
  "world_coords sc = concat (map (\<lambda>obj. corners (world_box obj)) (meshes sc))"

definition bounds_min :: "scene \<Rightarrow> vec3" where
  "bounds_min sc =
     (Min (set (map vx (world_coords sc))),
      Min (set (map vy (world_coords sc))),
      Min (set (map vz (world_coords sc))))"

definition bounds_max :: "scene \<Rightarrow> vec3" where
  "bounds_max sc =
     (Max (set (map vx (world_coords sc))),
      Max (set (map vy (world_coords sc))),
      Max (set (map vz (world_coords sc))))"

definition bounds_center :: "scene \<Rightarrow> vec3" where
  "bounds_center sc =
     ((vx (bounds_min sc) + vx (bounds_max sc)) / 2,
      (vy (bounds_min sc) + vy (bounds_max sc)) / 2,
      (vz (bounds_min sc) + vz (bounds_max sc)) / 2)"

definition bounds_dims :: "scene \<Rightarrow> vec3" where
  "bounds_dims sc = vsub (bounds_max sc) (bounds_min sc)"

text \<open>The camera offset from the centre, for a pitch and a yaw in degrees.\<close>

definition camera_distance :: real where
  "camera_distance = 10"

definition local_y_offset :: "real \<Rightarrow> real" where
  "local_y_offset angle = - camera_distance * cos (radians angle)"

definition local_z_offset :: "real \<Rightarrow> real" where
  "local_z_offset angle = camera_distance * sin (radians angle)"

definition world_x_offset :: "real \<Rightarrow> real \<Rightarrow> real" where
  "world_x_offset angle yaw = local_y_offset angle * sin (radians yaw)"

definition world_y_offset :: "real \<Rightarrow> real \<Rightarrow> real" where
  "world_y_offset angle yaw = local_y_offset angle * cos (radians yaw)"

definition camera_pos :: "vec3 \<Rightarrow> real \<Rightarrow> real \<Rightarrow> vec3" where
  "camera_pos center angle yaw =
     (vx center + world_x_offset angle yaw,
      vy center + world_y_offset angle yaw,
      vz center + local_z_offset angle)"

definition place_camera :: "RenderConfig \<Rightarrow> scene \<Rightarrow> camera_object" where
  "place_camera config sc =
     (let object_center = bounds_center sc;
          pos = camera_pos object_center (camera_angle config) (camera_yaw config);
          direction = normalized (vsub object_center pos)
      in (camera sc) \<lparr> location := pos, rotation_euler := TrackTo direction \<rparr>)"

text \<open>The canvas size from the fixed orthographic scale.\<close>

definition required_pixels :: "RenderConfig \<Rightarrow> int" where
  "required_pixels config = py_int (ortho_scale config * pixels_per_unit config)"

definition canvas_size :: "RenderConfig \<Rightarrow> py_error + int" where
  "canvas_size config =
     (case math_log2 (required_pixels config) of
        Inl e \<Rightarrow> Inl e
      | Inr l \<Rightarrow>
          Inr (max (min_canvas_size config)
                 (min (2 ^ nat \<lceil>l\<rceil>) (max_canvas_size config))))"

definition bounds_metadata :: "RenderConfig \<Rightarrow> scene \<Rightarrow> int \<Rightarrow> metadata" where
  "bounds_metadata config sc csize =
     [(''canvas_width'', JInt csize),
      (''canvas_height'', JInt csize),
      (''ortho_scale'', JFloat (ortho_scale config)),
      (''pixels_per_unit'', JFloat (pixels_per_unit config)),
      (''object_bounds'', JObj
         [(''width'', JFloat (vx (bounds_dims sc))),
          (''height'', JFloat (vy (bounds_dims sc))),
          (''depth'', JFloat (vz (bounds_dims sc))),
          (''center'', JObj
             [(''x'', JFloat (vx (bounds_center sc))),
              (''y'', JFloat (vy (bounds_center sc))),
              (''z'', JFloat (vz (bounds_center sc)))])])]"

text \<open>
  The whole function. It returns the canvas size and the metadata dict, and leaves the
  scene with the camera moved and the resolution set; with no mesh it returns early,
  before it touches the camera or the resolution. The \<^verbatim>\<open>ValueError\<close> of
  \<^verbatim>\<open>math.log2\<close> is not caught.
\<close>

definition calculate_canvas_and_position ::
  "RenderConfig \<Rightarrow> scene \<Rightarrow> py_error + (int \<times> metadata \<times> scene)" where
  "calculate_canvas_and_position config sc =
     (if mesh_count sc = 0 then Inr (min_canvas_size config, [], sc)
      else
        let sc1 = sc \<lparr> camera := place_camera config sc \<rparr>
        in case canvas_size config of
             Inl e \<Rightarrow> Inl e
           | Inr csize \<Rightarrow>
               Inr (csize, bounds_metadata config sc csize,
                    sc1 \<lparr> resolution_x := csize, resolution_y := csize \<rparr>))"

section \<open>Paths and strings\<close>

text \<open>
  A \<^verbatim>\<open>pathlib.Path\<close> of the POSIX flavour is the list of its parts; an absolute
  path starts with the part \<^verbatim>\<open>/\<close>. Parsing drops empty parts and \<^verbatim>\<open>.\<close> parts,
  and two paths compare as their lists of parts do.
\<close>

type_synonym path = "string list"

fun split_on :: "char \<Rightarrow> string \<Rightarrow> string list" where
  "split_on c [] = [[]]"
| "split_on c (x # xs) =
     (if x = c then [] # split_on c xs
      else case split_on c xs of
             [] \<Rightarrow> [[x]]
           | w # ws \<Rightarrow> (x # w) # ws)"

definition Path :: "string \<Rightarrow> path" where
  "Path s =
     (let parts = filter (\<lambda>p. p \<noteq> [] \<and> p \<noteq> ''.'') (split_on CHR ''/'' s)
      in if s \<noteq> [] \<and> hd s = CHR ''/'' then ''/'' # parts else parts)"

fun join_parts :: "string list \<Rightarrow> string" where
  "join_parts [] = []"
| "join_parts [p] = p"
| "join_parts (p # q # ps) = p @ ''/'' @ join_parts (q # ps)"

definition path_str :: "path \<Rightarrow> string" where
  "path_str p =
     (case p of
        [] \<Rightarrow> ''.''
      | r # ps \<Rightarrow> if r = ''/'' then ''/'' @ join_parts ps else join_parts p)"

text \<open>\<^verbatim>\<open>Path.suffix\<close> of a final component, from the last dot on, unless that dot is
  the first or the last character; \<^verbatim>\<open>with_suffix\<close> replaces it or appends.\<close>

definition name_suffix :: "string \<Rightarrow> string" where
  "name_suffix name =
     (if CHR ''.'' \<in> set name then
        let k = length (takeWhile (\<lambda>c. c \<noteq> CHR ''.'') (rev name));
            i = length name - 1 - k
        in if 0 < i \<and> i < length name - 1 then drop i name else []
      else [])"

definition name_with_suffix :: "string \<Rightarrow> string \<Rightarrow> string" where
  "name_with_suffix name new =
     (let old = name_suffix name
      in if old = [] then name @ new
         else take (length name - length old) name @ new)"

text \<open>\<^verbatim>\<open>with_suffix\<close> is applied to relative paths only; on a path without a final
  component Python raises.\<close>

definition with_suffix :: "path \<Rightarrow> string \<Rightarrow> py_error + path" where
  "with_suffix p new =
     (if p = [] then Inl ValueError
      else Inr (butlast p @ [name_with_suffix (last p) new]))"

definition relative_to :: "path \<Rightarrow> path \<Rightarrow> py_error + path" where
  "relative_to p base =
     (if prefix base p then Inr (drop (length base) p) else Inl ValueError)"

text \<open>\<^verbatim>\<open>str.lower\<close> on ASCII letters; other bytes are kept.\<close>

definition lower_char :: "char \<Rightarrow> char" where
  "lower_char c =
     (if CHR ''A'' \<le> c \<and> c \<le> CHR ''Z'' then char_of (of_char c + (32::nat)) else c)"

definition py_lower :: "string \<Rightarrow> string" where
  "py_lower s = map lower_char s"

text \<open>\<^verbatim>\<open>s.replace(old, new)\<close>, every occurrence from left to right. The script only
  passes the pattern \<^verbatim>\<open>.png\<close>; the empty pattern is left out.\<close>

function str_replace :: "string \<Rightarrow> string \<Rightarrow> string \<Rightarrow> string" where
  "str_replace old new [] = []"
| "str_replace old new (c # cs) =
     (if old \<noteq> [] \<and> prefix old (c # cs)
      then new @ str_replace old new (drop (length old) (c # cs))
      else c # str_replace old new cs)"
  by pat_completeness auto
termination
  by (relation "measure (\<lambda>(old, new, s). length s)") auto

section \<open>Asset discovery: \<^verbatim>\<open>find_models\<close>\<close>

text \<open>
  The directory tree that \<^verbatim>\<open>rglob\<close> walks. A pattern \<^verbatim>\<open>*fmt\<close> is matched against
  the name of every entry below the root, file or directory, by \<^verbatim>\<open>fnmatch\<close>, which
  on POSIX compares characters as they are. Bracket expressions and a \<^verbatim>\<open>/\<close> inside
  a format are left out of the matcher.
\<close>

datatype entry = File string | Dir string "entry list"

fun fnmatch :: "string \<Rightarrow> string \<Rightarrow> bool" where
  "fnmatch [] s = (s = [])"
| "fnmatch (p # ps) [] = (p = CHR ''*'' \<and> fnmatch ps [])"
| "fnmatch (p # ps) (c # cs) =
     (if p = CHR ''*'' then fnmatch ps (c # cs) \<or> fnmatch (p # ps) cs
      else if p = CHR ''?'' then fnmatch ps cs
      else p = c \<and> fnmatch ps cs)"

fun rglob_entry :: "string \<Rightarrow> path \<Rightarrow> entry \<Rightarrow> path list" where
  "rglob_entry pat parent (File name) =
     (if fnmatch pat name then [parent @ [name]] else [])"
| "rglob_entry pat parent (Dir name children) =
     (if fnmatch pat name then [parent @ [name]] else []) @
     concat (map (rglob_entry pat (parent @ [name])) children)"

definition rglob :: "entry list \<Rightarrow> path \<Rightarrow> string \<Rightarrow> path list" where
  "rglob tree base pat = concat (map (rglob_entry pat base) tree)"

definition find_models :: "(string \<Rightarrow> entry list) \<Rightarrow> string \<Rightarrow> string list \<Rightarrow> path list" where
  "find_models listing dir fmts =
     sort (concat (map (\<lambda>fmt. rglob (listing dir) (Path dir) (''*'' @ fmt)) fmts))"

section \<open>The world outside the script\<close>

text \<open>
  The files the script tests for and writes, by their path string, and Blender's scene.
  A rendered image is recorded with the camera and the resolution it was rendered with,
  a sidecar with the dict that was dumped into it.
\<close>

datatype file_content = Image camera_object int int | Sidecar metadata | OtherFile

record world =
  files :: "string \<rightharpoonup> file_content"
  bpy_scene :: scene

text \<open>
  What the collaborators answer: the directory tree found at a directory, the three
  import operators (\<open>None\<close> when the operator raises, otherwise the objects it adds),
  the scaling of imported objects, the render operator, Pillow's crop of an image (its
  original size and the box of its opaque pixels; \<open>None\<close> when Pillow is missing, the
  image is fully transparent or anything raises) and whether a sidecar can be written.
\<close>

datatype render_outcome = Wrote | Silent | Raised

record externals =
  listing :: "string \<Rightarrow> entry list"
  import_gltf :: "string \<Rightarrow> scene_object list option"
  import_obj :: "string \<Rightarrow> scene_object list option"
  import_fbx :: "string \<Rightarrow> scene_object list option"
  apply_scale :: "real \<Rightarrow> scene_object list \<Rightarrow> scene_object list option"
  render :: "scene \<Rightarrow> string \<Rightarrow> render_outcome"
  crop :: "string \<Rightarrow> ((int \<times> int) \<times> (int \<times> int \<times> int \<times> int)) option"
  json_dump :: "string \<Rightarrow> bool"

section \<open>Scene setup\<close>

text \<open>\<^verbatim>\<open>clear_scene\<close>, \<^verbatim>\<open>setup_camera\<close> and \<^verbatim>\<open>setup_render_settings\<close>: every
  object is deleted, a new camera is added at the origin with the configured pitch and
  yaw, and the resolution is set. The light and the engine settings are not read by
  anything below and are left out.\<close>

definition setup_camera :: "RenderConfig \<Rightarrow> camera_object" where
  "setup_camera config =
     \<lparr> location = (0, 0, 0),
       rotation_euler = Euler (radians (camera_angle config)) 0 (radians (camera_yaw config)) \<rparr>"

definition setup_scene :: "RenderConfig \<Rightarrow> scene \<Rightarrow> scene" where
  "setup_scene config sc =
     sc \<lparr> objects := [],
          camera := setup_camera config,
          resolution_x := resolution config,
          resolution_y := resolution config \<rparr>"

section \<open>Import, render, crop, metadata\<close>

definition add_imported ::
  "externals \<Rightarrow> real \<Rightarrow> scene \<Rightarrow> scene_object list option \<Rightarrow> bool \<times> scene" where
  "add_imported ext factor sc r =
     (case r of
        None \<Rightarrow> (False, sc)
      | Some objs \<Rightarrow>
          if factor \<noteq> 1 then
            (case apply_scale ext factor objs of
               None \<Rightarrow> (False, sc \<lparr> objects := objects sc @ objs \<rparr>)
             | Some scaled \<Rightarrow> (True, sc \<lparr> objects := objects sc @ scaled \<rparr>))
          else (True, sc \<lparr> objects := objects sc @ objs \<rparr>))"

definition import_model :: "externals \<Rightarrow> string \<Rightarrow> real \<Rightarrow> scene \<Rightarrow> bool \<times> scene" where
  "import_model ext filepath factor sc =
     (let p = Path filepath;
          e = py_lower (if p = [] then [] else name_suffix (last p))
      in if e = ''.gltf'' \<or> e = ''.glb'' then add_imported ext factor sc (import_gltf ext filepath)
         else if e = ''.obj'' then add_imported ext factor sc (import_obj ext filepath)
         else if e = ''.fbx'' then add_imported ext factor sc (import_fbx ext filepath)
         else (False, sc))"

text \<open>\<^verbatim>\<open>render_sprite\<close>: true exactly when nothing raised and the output file exists
  afterwards.\<close>

definition render_sprite :: "externals \<Rightarrow> string \<Rightarrow> world \<Rightarrow> bool \<times> world" where
  "render_sprite ext output_path w =
     (let sc = (bpy_scene w) \<lparr> render_filepath := output_path \<rparr>;
          w1 = w \<lparr> bpy_scene := sc \<rparr>
      in case render ext sc output_path of
           Raised \<Rightarrow> (False, w1)
         | Silent \<Rightarrow> (output_path \<in> dom (files w1), w1)
         | Wrote \<Rightarrow>
             (True, w1 \<lparr> files := (files w1)(output_path \<mapsto>
                Image (camera sc) (resolution_x sc) (resolution_y sc)) \<rparr>))"

definition auto_crop_sprite :: "externals \<Rightarrow> string \<Rightarrow> metadata" where
  "auto_crop_sprite ext image_path =
     (case crop ext image_path of
        None \<Rightarrow> []
      | Some ((ow, oh), (left, upper, right, lower)) \<Rightarrow>
          [(''original_size'', JObj [(''w'', JInt ow), (''h'', JInt oh)]),
           (''crop_offset'', JObj [(''x'', JInt left), (''y'', JInt upper)]),
           (''cropped_size'', JObj [(''w'', JInt (right - left)), (''h'', JInt (lower - upper))])])"

definition export_metadata :: "externals \<Rightarrow> string \<Rightarrow> metadata \<Rightarrow> world \<Rightarrow> bool \<times> world" where
  "export_metadata ext output_path md w =
     (let metadata_path = str_replace ''.png'' ''.json'' output_path
      in if json_dump ext metadata_path
         then (True, w \<lparr> files := (files w)(metadata_path \<mapsto> Sidecar md) \<rparr>)
         else (False, w))"

section \<open>The batch: \<^verbatim>\<open>process_batch\<close>\<close>

record batch_stats =
  processed :: nat
  skipped :: nat
  failed :: nat
  failed_files :: "string list"

definition rotations4 :: "(int \<times> string \<times> string) list" where
  "rotations4 =
     [(0, ''_s'', ''South''),
      (90, ''_e'', ''East''),
      (180, ''_n'', ''North''),
      (270, ''_w'', ''West'')]"

text \<open>The state of the loop over the four rotations: the configuration, whose yaw the
  loop overwrites, the world, the flag \<^verbatim>\<open>render_success\<close> and the counters.\<close>

type_synonym rot_state = "RenderConfig \<times> world \<times> bool \<times> batch_stats"

fun rotation_step ::
  "externals \<Rightarrow> path \<Rightarrow> path \<Rightarrow> int \<times> string \<times> string \<Rightarrow> rot_state \<Rightarrow> py_error + rot_state" where
  "rotation_step ext rel_path output_file (angle, sfx, direction) (config, w, render_success, st) =
       (let config1 = config \<lparr> camera_yaw := real_of_int angle \<rparr>
        in case calculate_canvas_and_position config1 (bpy_scene w) of
             Inl e \<Rightarrow> Inl e
           | Inr (csize, md, sc1) \<Rightarrow>
               let md1 = dict_set (dict_set md ''rotation_degrees'' (JInt angle))
                           ''direction'' (JStr direction);
                   rotated_output = str_replace ''.png'' (sfx @ ''.png'') (path_str output_file);
                   (ok, w1) = render_sprite ext rotated_output (w \<lparr> bpy_scene := sc1 \<rparr>)
               in if \<not> ok then
                    Inr (config1, w1, False,
                         st \<lparr> failed := failed st + 1,
                              failed_files := failed_files st @
                                [path_str rel_path @ '' ('' @ direction @ '')''] \<rparr>)
                  else
                    let md2 = (if auto_crop config1
                               then dict_update md1 (auto_crop_sprite ext rotated_output)
                               else md1)
                    in Inr (config1, snd (export_metadata ext rotated_output md2 w1),
                            render_success, st))"

fun rotation_loop ::
  "externals \<Rightarrow> path \<Rightarrow> path \<Rightarrow> (int \<times> string \<times> string) list \<Rightarrow> rot_state \<Rightarrow> py_error + rot_state" where
  "rotation_loop ext rel_path output_file [] s = Inr s"
| "rotation_loop ext rel_path output_file (rot # rots) s =
     (case rotation_step ext rel_path output_file rot s of
        Inl e \<Rightarrow> Inl e
      | Inr s1 \<Rightarrow> rotation_loop ext rel_path output_file rots s1)"

text \<open>The single render of the \<^verbatim>\<open>else\<close> branch.\<close>

type_synonym batch_state = "RenderConfig \<times> world \<times> batch_stats"

fun single_render ::
  "externals \<Rightarrow> path \<Rightarrow> path \<Rightarrow> batch_state \<Rightarrow> py_error + batch_state" where
  "single_render ext rel_path output_file (config, w, st) =
       (case calculate_canvas_and_position config (bpy_scene w) of
          Inl e \<Rightarrow> Inl e
        | Inr (csize, md, sc1) \<Rightarrow>
            let md1 = dict_set (dict_set md ''rotation_degrees'' (JInt 0))
                        ''direction'' (JStr ''South'');
                (ok, w1) = render_sprite ext (path_str output_file) (w \<lparr> bpy_scene := sc1 \<rparr>)
            in if ok then
                 let md2 = (if auto_crop config
                            then dict_update md1 (auto_crop_sprite ext (path_str output_file))
                            else md1)
                 in Inr (config, snd (export_metadata ext (path_str output_file) md2 w1),
                         st \<lparr> processed := processed st + 1 \<rparr>)
               else
                 Inr (config, w1,
                      st \<lparr> failed := failed st + 1,
                           failed_files := failed_files st @ [path_str rel_path] \<rparr>))"

text \<open>The body of the loop over the models.\<close>

definition clear_previous :: "scene \<Rightarrow> scene" where
  "clear_previous sc =
     sc \<lparr> objects := filter (\<lambda>obj. \<not> (obj_type obj = MESH \<or> obj_type obj = EMPTY)) (objects sc) \<rparr>"

definition output_file_of :: "RenderConfig \<Rightarrow> path \<Rightarrow> py_error + (path \<times> path)" where
  "output_file_of config model_path =
     (case relative_to model_path (Path (input_dir config)) of
        Inl e \<Rightarrow> Inl e
      | Inr rel_path \<Rightarrow>
          (case with_suffix rel_path ''.png'' of
             Inl e \<Rightarrow> Inl e
           | Inr png \<Rightarrow> Inr (rel_path, Path (output_dir config) @ png)))"

fun process_model ::
  "externals \<Rightarrow> path \<Rightarrow> batch_state \<Rightarrow> py_error + batch_state" where
  "process_model ext model_path (config, w, st) =
     (case output_file_of config model_path of
        Inl e \<Rightarrow> Inl e
      | Inr (rel_path, output_file) \<Rightarrow>
          if skip_existing config \<and> path_str output_file \<in> dom (files w)
          then Inr (config, w, st \<lparr> skipped := skipped st + 1 \<rparr>)
          else
            let (ok, sc1) = import_model ext (path_str model_path) (scale_factor config)
                              (clear_previous (bpy_scene w));
                w1 = w \<lparr> bpy_scene := sc1 \<rparr>
            in if \<not> ok then
                 Inr (config, w1,
                      st \<lparr> failed := failed st + 1,
                           failed_files := failed_files st @ [path_str rel_path] \<rparr>)
               else if rotations config = 4 then
                 let original_yaw = camera_yaw config
                 in case rotation_loop ext rel_path output_file rotations4
                           (config, w1, True, st) of
                      Inl e \<Rightarrow> Inl e
                    | Inr (config1, w2, render_success, st1) \<Rightarrow>
                        Inr (config1 \<lparr> camera_yaw := original_yaw \<rparr>, w2,
                             if render_success
                             then st1 \<lparr> processed := processed st1 + 1 \<rparr>
                             else st1)
               else single_render ext rel_path output_file (config, w1, st))"

fun process_models ::
  "externals \<Rightarrow> path list \<Rightarrow> batch_state \<Rightarrow> py_error + batch_state" where
  "process_models ext [] s = Inr s"
| "process_models ext (m # ms) s =
     (case process_model ext m s of
        Inl e \<Rightarrow> Inl e
      | Inr s1 \<Rightarrow> process_models ext ms s1)"

text \<open>The whole run. With no model found it returns at once, before the scene is set
  up; otherwise it ends with the counters it prints.\<close>

datatype batch_outcome = NoModelsFound | Completed batch_stats

definition no_stats :: batch_stats where
  "no_stats = \<lparr> processed = 0, skipped = 0, failed = 0, failed_files = [] \<rparr>"

definition process_batch ::
  "externals \<Rightarrow> RenderConfig \<Rightarrow> world \<Rightarrow> py_error + (batch_outcome \<times> RenderConfig \<times> world)" where
  "process_batch ext config w =
     (let models = find_models (listing ext) (input_dir config) (formats config)
      in if models = [] then Inr (NoModelsFound, config, w)
         else
           let w0 = w \<lparr> bpy_scene := setup_scene config (bpy_scene w) \<rparr>
           in case process_models ext models (config, w0, no_stats) of
                Inl e \<Rightarrow> Inl e
              | Inr (config1, w1, st) \<Rightarrow> Inr (Completed st, config1, w1))"

section \<open>Notions of the specification\<close>



definition is_power_of_two :: "int \<Rightarrow> bool" where
  "is_power_of_two n = (\<exists>k::nat. n = 2 ^ k)"

text \<open>Every path of a directory tree, files and directories alike; the requirement that
  a format holds no glob metacharacter; and the specification's test for an accepted
  extension, which ignores letter case.\<close>

fun tree_paths :: "path \<Rightarrow> entry \<Rightarrow> path list" where
  "tree_paths parent (File name) = [parent @ [name]]"
| "tree_paths parent (Dir name children) =
     (parent @ [name]) # concat (map (tree_paths (parent @ [name])) children)"

definition paths_below :: "entry list \<Rightarrow> path \<Rightarrow> path list" where
  "paths_below tree base = concat (map (tree_paths base) tree)"

definition plain_format :: "string \<Rightarrow> bool" where
  "plain_format fmt =
     (CHR ''*'' \<notin> set fmt \<and> CHR ''?'' \<notin> set fmt \<and> CHR ''['' \<notin> set fmt \<and> CHR ''/'' \<notin> set fmt)"

definition spec_accepts :: "string list \<Rightarrow> string \<Rightarrow> bool" where
  "spec_accepts fmts name = (py_lower (name_suffix name) \<in> set (map py_lower fmts))"


definition run_twice ::
  "externals \<Rightarrow> RenderConfig \<Rightarrow> world \<Rightarrow> py_error + (batch_outcome \<times> batch_outcome)" where
  "run_twice ext config w =
     (case process_batch ext config w of
        Inl e \<Rightarrow> Inl e
      | Inr (first, config1, w1) \<Rightarrow>
          (case process_batch ext config1 w1 of
             Inl e \<Rightarrow> Inl e
           | Inr (second, config2, w2) \<Rightarrow> Inr (first, second)))"

text \<open>A render engine that writes every image it is asked for, and the fact that every
  file of one world is still a file of another.\<close>

definition always_renders :: "externals \<Rightarrow> bool" where
  "always_renders ext = (\<forall>sc p. render ext sc p = Wrote)"

definition files_kept :: "world \<Rightarrow> world \<Rightarrow> bool" where
  "files_kept w w1 = (dom (files w) \<subseteq> dom (files w1))"

text \<open>The image files that processing one asset writes: the four suffixed names for four
  rotations, the output file itself otherwise.\<close>

definition written_outputs :: "RenderConfig \<Rightarrow> path \<Rightarrow> string list" where
  "written_outputs config output_file =
     (if rotations config = 4
      then map (\<lambda>(angle, sfx, direction).
                  str_replace ''.png'' (sfx @ ''.png'') (path_str output_file)) rotations4
      else [path_str output_file])"



section \<open>Example inputs\<close>

text \<open>A cube of side two around the origin, in Blender's corner order, and a scene as
  Blender starts it.\<close>

definition unit_cube :: scene_object where
  "unit_cube =
     \<lparr> obj_type = MESH,
       world_box = BoundBox (-1, -1, -1) (-1, -1, 1) (-1, 1, 1) (-1, 1, -1)
                            (1, -1, -1) (1, -1, 1) (1, 1, 1) (1, 1, -1) \<rparr>"

definition blank_scene :: scene where
  "blank_scene =
     \<lparr> objects = [],
       camera = \<lparr> location = (0, 0, 0), rotation_euler = Euler 0 0 0 \<rparr>,
       resolution_x = 1920,
       resolution_y = 1080,
       render_filepath = ''/tmp/'' \<rparr>"

definition cube_scene :: scene where
  "cube_scene = blank_scene \<lparr> objects := [unit_cube] \<rparr>"

text \<open>A scene without a mesh, and two configurations whose product of scale and
  density is below one.\<close>

definition empties_scene :: scene where
  "empties_scene =
     blank_scene \<lparr> objects := [unit_cube \<lparr> obj_type := EMPTY \<rparr>, unit_cube \<lparr> obj_type := LIGHT \<rparr>] \<rparr>"



text \<open>Directory trees, a world with no file yet, and collaborators that import a cube
  from every glTF file, render every image and write every sidecar.\<close>

definition upper_listing :: "string \<Rightarrow> entry list" where
  "upper_listing dir = (if dir = ''models'' then [File ''MODEL.GLB''] else [])"

definition nested_listing :: "string \<Rightarrow> entry list" where
  "nested_listing dir =
     (if dir = ''models''
      then [File ''b.glb'', Dir ''sub'' [File ''a.obj'', File ''notes.txt''],
            File ''MODEL.GLB'', Dir ''d.fbx'' []]
      else [])"

definition three_listing :: "string \<Rightarrow> entry list" where
  "three_listing dir =
     (if dir = ''models'' then [File ''a.glb'', File ''b.stl'', File ''c.glb''] else [])"

definition fresh_world :: world where
  "fresh_world = \<lparr> files = Map.empty, bpy_scene = blank_scene \<rparr>"

definition studio :: externals where
  "studio =
     \<lparr> listing = three_listing,
       import_gltf = (\<lambda>p. Some [unit_cube]),
       import_obj = (\<lambda>p. None),
       import_fbx = (\<lambda>p. None),
       apply_scale = (\<lambda>factor objs. Some objs),
       render = (\<lambda>sc p. Wrote),
       crop = (\<lambda>p. None),
       json_dump = (\<lambda>p. True) \<rparr>"

definition turntable_config :: RenderConfig where
  "turntable_config =
     default_config \<lparr> input_dir := ''models'', rotations := 4, skip_existing := True \<rparr>"

definition rerun_config :: RenderConfig where
  "rerun_config = default_config \<lparr> input_dir := ''models'', skip_existing := True \<rparr>"



text \<open>A world whose scene holds the cube.\<close>

definition cube_world :: world where
  "cube_world = fresh_world \<lparr> bpy_scene := cube_scene \<rparr>"

section \<open>Properties of the framing step\<close>

subsection \<open>Auxiliary facts\<close>

lemma default_fields:
  "ortho_scale default_config = 4"
  "pixels_per_unit default_config = 256"
  "min_canvas_size default_config = 256"
  "max_canvas_size default_config = 1024"
  "camera_angle default_config = 55"
  "camera_yaw default_config = 0"
  by (simp_all add: default_config_def)

lemma ceil_log2_eval:
  assumes "0 < n" "n \<le> 2 ^ l" "2 ^ l < 2 * n"
  shows "nat \<lceil>log 2 (real_of_int (int n))\<rceil> = l"
  using ceillog2_eqI[OF assms(2,3)] assms(1) by (simp add: ceillog2_def)

lemma canvas_size_ok:
  assumes "1 \<le> required_pixels c"
  shows "canvas_size c =
     Inr (max (min_canvas_size c)
            (min (2 ^ nat \<lceil>log 2 (real_of_int (required_pixels c))\<rceil>) (max_canvas_size c)))"
  using assms by (simp add: canvas_size_def math_log2_def)


lemma py_int_of_int [simp]: "py_int (real_of_int n) = n"
  by (simp add: py_int_def)






lemma mesh_count_zero_iff:
  "mesh_count sc = 0 \<longleftrightarrow> (\<forall>obj \<in> set (objects sc). obj_type obj \<noteq> MESH)"
  by (auto simp: mesh_count_def meshes_def filter_empty_conv)

lemma calculate_no_mesh:
  "mesh_count sc = 0 \<Longrightarrow>
     calculate_canvas_and_position c sc = Inr (min_canvas_size c, [], sc)"
  by (simp add: calculate_canvas_and_position_def)

lemma calculate_mesh:
  "mesh_count sc \<noteq> 0 \<Longrightarrow>
     calculate_canvas_and_position c sc =
       (case canvas_size c of
          Inl e \<Rightarrow> Inl e
        | Inr csize \<Rightarrow>
            Inr (csize, bounds_metadata c sc csize,
                 sc \<lparr> camera := place_camera c sc, resolution_x := csize, resolution_y := csize \<rparr>))"
  by (simp add: calculate_canvas_and_position_def Let_def)

lemma cube_scene_mesh: "mesh_count cube_scene = 1"
  by (simp add: mesh_count_def meshes_def cube_scene_def unit_cube_def)


lemma not_power_of_two_1000: "\<not> is_power_of_two 1000"
proof
  assume "is_power_of_two 1000"
  then obtain k :: nat where k: "(1000::int) = 2 ^ k"
    by (auto simp: is_power_of_two_def)
  show False
  proof (cases "k \<le> 9")
    case True
    then have "(2::int) ^ k \<le> 2 ^ 9" by (intro power_increasing) simp_all
    with k show False by simp
  next
    case False
    then have "(2::int) ^ 10 \<le> 2 ^ k" by (intro power_increasing) simp_all
    with k show False by simp
  qed
qed

subsection \<open>The canvas formula\<close>




subsection \<open>Bounds and powers of two\<close>

text \<open>
  Claim C3, as amended. For every configuration whose minimum canvas is at most its
  maximum canvas and whose truncated product is at least one, and for every scene, the
  framing step returns a canvas size between the minimum and the maximum. The size is a
  power of two or one of the two bounds; it is a power of two whenever both bounds are.
\<close>

theorem canvas_size_bounds:
  assumes "min_canvas_size c \<le> max_canvas_size c" and "1 \<le> required_pixels c"
  shows "\<exists>s md sc1. calculate_canvas_and_position c sc = Inr (s, md, sc1)
           \<and> min_canvas_size c \<le> s \<and> s \<le> max_canvas_size c
           \<and> (is_power_of_two s \<or> s = min_canvas_size c \<or> s = max_canvas_size c)
           \<and> (is_power_of_two (min_canvas_size c) \<and> is_power_of_two (max_canvas_size c)
                 \<longrightarrow> is_power_of_two s)"
proof (cases "mesh_count sc = 0")
  case True
  then show ?thesis using assms(1) by (simp add: calculate_no_mesh)
next
  case False
  let ?p = "(2::int) ^ nat \<lceil>log 2 (real_of_int (required_pixels c))\<rceil>"
  let ?s = "max (min_canvas_size c) (min ?p (max_canvas_size c))"
  have p2: "is_power_of_two ?p" by (auto simp: is_power_of_two_def)
  have "?s = ?p \<or> ?s = min_canvas_size c \<or> ?s = max_canvas_size c"
    by (simp add: max_def min_def)
  with p2 have alt: "is_power_of_two ?s \<or> ?s = min_canvas_size c \<or> ?s = max_canvas_size c"
    by metis
  have "calculate_canvas_and_position c sc =
          Inr (?s, bounds_metadata c sc ?s,
               sc \<lparr> camera := place_camera c sc, resolution_x := ?s, resolution_y := ?s \<rparr>)"
    using False canvas_size_ok[OF assms(2)] by (simp add: calculate_mesh)
  moreover have "min_canvas_size c \<le> ?s" "?s \<le> max_canvas_size c"
    using assms(1) by simp_all
  ultimately show ?thesis using alt by metis
qed

theorem canvas_size_bounds_witness:
  "min_canvas_size default_config \<le> max_canvas_size default_config
   \<and> 1 \<le> required_pixels default_config
   \<and> is_power_of_two (min_canvas_size default_config)
   \<and> is_power_of_two (max_canvas_size default_config)
   \<and> (\<exists>s md sc1. calculate_canvas_and_position default_config cube_scene = Inr (s, md, sc1)
          \<and> 256 \<le> s \<and> s \<le> 1024 \<and> is_power_of_two s)"
proof -
  have a: "min_canvas_size default_config \<le> max_canvas_size default_config"
    by (simp add: default_config_def)
  have b: "1 \<le> required_pixels default_config"
    by (simp add: default_config_def required_pixels_def py_int_def)
  have "(256::int) = 2 ^ 8" by simp
  then have c: "is_power_of_two (min_canvas_size default_config)"
    unfolding is_power_of_two_def default_config_def by (simp del: power_numeral) blast
  have "(1024::int) = 2 ^ 10" by simp
  then have d: "is_power_of_two (max_canvas_size default_config)"
    unfolding is_power_of_two_def default_config_def by (simp del: power_numeral) blast
  from canvas_size_bounds[OF a b, of cube_scene] c d
  have "\<exists>s md sc1. calculate_canvas_and_position default_config cube_scene = Inr (s, md, sc1)
          \<and> min_canvas_size default_config \<le> s \<and> s \<le> max_canvas_size default_config
          \<and> is_power_of_two s"
    by blast
  then have "\<exists>s md sc1. calculate_canvas_and_position default_config cube_scene = Inr (s, md, sc1)
          \<and> 256 \<le> s \<and> s \<le> 1024 \<and> is_power_of_two s"
    unfolding default_fields .
  with a b c d show ?thesis by blast
qed

text \<open>
  The claim as stated fails: with a minimum of 300 and a maximum of 1000, which satisfy
  minimum \<open>\<le>\<close> maximum, the default scale and density give 1024, which is clamped to
  1000, and 1000 is not a power of two.
\<close>

theorem canvas_size_power_counterexample:
  "min_canvas_size (default_config \<lparr> min_canvas_size := 300, max_canvas_size := 1000 \<rparr>)
     \<le> max_canvas_size (default_config \<lparr> min_canvas_size := 300, max_canvas_size := 1000 \<rparr>)
   \<and> map_sum id fst (calculate_canvas_and_position
        (default_config \<lparr> min_canvas_size := 300, max_canvas_size := 1000 \<rparr>) cube_scene) = Inr 1000
   \<and> \<not> is_power_of_two 1000"
proof -
  have l: "nat \<lceil>log 2 (real_of_int (int 1024))\<rceil> = 10"
    by (rule ceil_log2_eval) simp_all
  have "canvas_size (default_config \<lparr> min_canvas_size := 300, max_canvas_size := 1000 \<rparr>) = Inr 1000"
    using l by (simp add: canvas_size_def math_log2_def required_pixels_def default_config_def py_int_def)
  then show ?thesis
    using not_power_of_two_1000 by (simp add: calculate_mesh cube_scene_mesh default_config_def)
qed

subsection \<open>The camera position\<close>

lemma radians_simps [simp]: "radians 0 = 0" "radians 90 = pi / 2"
  by (simp_all add: radians_def)


subsection \<open>A scene without meshes\<close>

text \<open>
  Claim C8. For every scene in which no object is a mesh, the framing step returns the
  configured minimum canvas size with an empty metadata dict and leaves the scene as it
  was: the camera keeps its pose and the resolution is not touched. Nothing is raised.
\<close>

theorem no_mesh_degraded:
  assumes "\<forall>obj \<in> set (objects sc). obj_type obj \<noteq> MESH"
  shows "calculate_canvas_and_position c sc = Inr (min_canvas_size c, [], sc)"
  using assms calculate_no_mesh[of sc c] by (simp add: mesh_count_zero_iff)

theorem no_mesh_degraded_witness:
  "map obj_type (objects empties_scene) = [EMPTY, LIGHT]
   \<and> calculate_canvas_and_position default_config empties_scene = Inr (256, [], empties_scene)
   \<and> camera empties_scene = \<lparr> location = (0, 0, 0), rotation_euler = Euler 0 0 0 \<rparr>"
proof -
  have h: "\<forall>obj \<in> set (objects empties_scene). obj_type obj \<noteq> MESH"
    by (simp add: empties_scene_def)
  have "calculate_canvas_and_position default_config empties_scene =
          Inr (min_canvas_size default_config, [], empties_scene)"
    by (rule no_mesh_degraded[OF h])
  then have "calculate_canvas_and_position default_config empties_scene = Inr (256, [], empties_scene)"
    unfolding default_fields .
  moreover have "camera empties_scene = \<lparr> location = (0, 0, 0), rotation_euler = Euler 0 0 0 \<rparr>"
    by (simp add: empties_scene_def blank_scene_def)
  moreover have "map obj_type (objects empties_scene) = [EMPTY, LIGHT]"
    by (simp add: empties_scene_def)
  ultimately show ?thesis by blast
qed

subsection \<open>The domain of the logarithm\<close>





section \<open>Properties of asset discovery\<close>

lemma fnmatch_literal:
  "CHR ''*'' \<notin> set p \<Longrightarrow> CHR ''?'' \<notin> set p \<Longrightarrow> fnmatch p s = (s = p)"
proof (induction p arbitrary: s)
  case Nil
  then show ?case by simp
next
  case (Cons a p)
  then show ?case by (cases s) auto
qed

lemma fnmatch_star:
  assumes "CHR ''*'' \<notin> set fmt" "CHR ''?'' \<notin> set fmt"
  shows "fnmatch (CHR ''*'' # fmt) s = suffix fmt s"
proof (induction s)
  case Nil
  show ?case using assms by (auto simp: fnmatch_literal)
next
  case (Cons c cs)
  then show ?case using assms by (auto simp: fnmatch_literal suffix_Cons)
qed

lemma rglob_entry_filter:
  "rglob_entry pat parent e = filter (\<lambda>p. fnmatch pat (last p)) (tree_paths parent e)"
proof (induction e arbitrary: parent)
  case (File name)
  show ?case by simp
next
  case (Dir name children)
  have "concat (map (rglob_entry pat (parent @ [name])) children) =
        concat (map (\<lambda>e. filter (\<lambda>p. fnmatch pat (last p)) (tree_paths (parent @ [name]) e)) children)"
    using Dir.IH by (intro arg_cong[where f = concat] map_cong) auto
  then show ?case by (simp add: filter_concat comp_def)
qed

lemma rglob_filter:
  "rglob tree base pat = filter (\<lambda>p. fnmatch pat (last p)) (paths_below tree base)"
proof -
  have "rglob_entry pat base = (\<lambda>e. filter (\<lambda>p. fnmatch pat (last p)) (tree_paths base e))"
    by (rule ext) (rule rglob_entry_filter)
  then show ?thesis
    by (simp add: rglob_def paths_below_def filter_concat comp_def)
qed

text \<open>For formats without glob metacharacters, discovery returns the paths below the
  input root, files and directories, whose final name ends with a format as written, each
  once per format it ends with, sorted by their parts.\<close>

lemma find_models_sorted_matches:
  assumes "list_all plain_format fmts"
  shows "sorted (find_models l dir fmts)
     \<and> mset (find_models l dir fmts) =
         mset (concat (map (\<lambda>fmt. filter (\<lambda>p. suffix fmt (last p))
                                      (paths_below (l dir) (Path dir))) fmts))
     \<and> set (find_models l dir fmts) =
         {p \<in> set (paths_below (l dir) (Path dir)). \<exists>fmt \<in> set fmts. suffix fmt (last p)}"
proof -
  have eq: "map (\<lambda>fmt. rglob (l dir) (Path dir) (CHR ''*'' # fmt)) fmts =
        map (\<lambda>fmt. filter (\<lambda>p. suffix fmt (last p)) (paths_below (l dir) (Path dir))) fmts"
    using assms
    by (intro map_cong) (auto simp: rglob_filter fnmatch_star plain_format_def list_all_iff)
  have m: "mset (find_models l dir fmts) =
         mset (concat (map (\<lambda>fmt. filter (\<lambda>p. suffix fmt (last p))
                                      (paths_below (l dir) (Path dir))) fmts))"
    by (simp add: find_models_def eq)
  have "set (find_models l dir fmts) =
         set (concat (map (\<lambda>fmt. filter (\<lambda>p. suffix fmt (last p))
                                      (paths_below (l dir) (Path dir))) fmts))"
    by (simp add: find_models_def eq)
  then have s: "set (find_models l dir fmts) =
         {p \<in> set (paths_below (l dir) (Path dir)). \<exists>fmt \<in> set fmts. suffix fmt (last p)}"
    by auto
  show ?thesis using m s by (simp add: find_models_def)
qed

text \<open>An example with a subdirectory, a directory named like a model and an upper-case
  extension.\<close>

lemma find_models_nested:
  "find_models nested_listing ''models'' (formats default_config) =
     [[''models'', ''b.glb''], [''models'', ''d.fbx''], [''models'', ''sub'', ''a.obj'']]"
  by code_simp

section \<open>Properties of the batch\<close>

subsection \<open>The configuration during a run\<close>

lemma rotation_step_config:
  assumes "rotation_step ext rel out rot s = Inr s1"
  shows "fst s1 = (fst s) \<lparr> camera_yaw := real_of_int (fst rot) \<rparr>"
proof -
  obtain angle sfx dir where rot: "rot = (angle, sfx, dir)" by (cases rot)
  obtain c w ok st where s: "s = (c, w, ok, st)" by (cases s)
  show ?thesis
    using assms unfolding rot s
    by (auto simp: Let_def split: sum.splits prod.splits if_splits)
qed

lemma rotation_loop_config_upto_yaw:
  assumes "rotation_loop ext rel out rots s = Inr s1"
  shows "(fst s1) \<lparr> camera_yaw := y \<rparr> = (fst s) \<lparr> camera_yaw := y \<rparr>"
  using assms
proof (induction rots arbitrary: s)
  case Nil
  then show ?case by simp
next
  case (Cons rot rots)
  from Cons.prems obtain s2 where
    step: "rotation_step ext rel out rot s = Inr s2" and
    rest: "rotation_loop ext rel out rots s2 = Inr s1"
    by (auto split: sum.splits)
  from rotation_step_config[OF step] Cons.IH[OF rest]
  show ?case by simp
qed

lemma rotation_loop_config:
  assumes "rotation_loop ext rel out rots s = Inr s1"
  shows "(fst s1) \<lparr> camera_yaw := camera_yaw (fst s) \<rparr> = fst s"
  using rotation_loop_config_upto_yaw[OF assms, of "camera_yaw (fst s)"] by simp

lemma single_render_config:
  assumes "single_render ext rel out s = Inr s1"
  shows "fst s1 = fst s"
proof -
  obtain c w st where s: "s = (c, w, st)" by (cases s)
  show ?thesis
    using assms unfolding s
    by (auto simp: Let_def split: sum.splits prod.splits if_splits)
qed

lemma process_model_config:
  assumes "process_model ext m s = Inr s1"
  shows "fst s1 = fst s"
proof -
  obtain c w st where s: "s = (c, w, st)" by (cases s)
  obtain c1 w1 st1 where s1: "s1 = (c1, w1, st1)" by (cases s1)
  show ?thesis
  proof (cases "output_file_of c m")
    case (Inl e)
    with assms show ?thesis unfolding s by simp
  next
    case (Inr ro)
    obtain rel out where ro: "ro = (rel, out)" by (cases ro)
    show ?thesis
      using assms Inr unfolding s s1 ro
      by (auto simp: Let_def split: sum.splits prod.splits if_splits
          dest!: rotation_loop_config single_render_config)
  qed
qed

lemma process_models_config:
  assumes "process_models ext ms s = Inr s1"
  shows "fst s1 = fst s"
  using assms
proof (induction ms arbitrary: s)
  case Nil
  then show ?case by simp
next
  case (Cons m ms)
  from Cons.prems obtain s2 where
    step: "process_model ext m s = Inr s2" and
    rest: "process_models ext ms s2 = Inr s1"
    by (auto split: sum.splits)
  from process_model_config[OF step] Cons.IH[OF rest] show ?case by simp
qed

lemma process_batch_config:
  assumes "process_batch ext c w = Inr (outcome, c1, w1)"
  shows "c1 = c"
  using assms
  by (auto simp: process_batch_def Let_def split: if_splits sum.splits prod.splits
      dest!: process_models_config)


subsection \<open>Files are never removed\<close>

lemma required_pixels_yaw [simp]:
  "required_pixels (c \<lparr> camera_yaw := y \<rparr>) = required_pixels c"
  by (simp add: required_pixels_def)

lemma calculate_total:
  assumes "1 \<le> required_pixels c"
  shows "\<exists>s md sc1. calculate_canvas_and_position c sc = Inr (s, md, sc1)"
proof (cases "mesh_count sc = 0")
  case True
  then show ?thesis by (simp add: calculate_no_mesh)
next
  case False
  then show ?thesis using canvas_size_ok[OF assms] by (simp add: calculate_mesh)
qed

lemma render_sprite_wrote:
  assumes "always_renders ext"
  shows "fst (render_sprite ext p w)" and "p \<in> dom (files (snd (render_sprite ext p w)))"
  using assms by (simp_all add: render_sprite_def always_renders_def Let_def)

lemma files_kept_refl [simp]: "files_kept w w"
  by (simp add: files_kept_def)

lemma files_kept_scene [simp]: "files_kept (w \<lparr> bpy_scene := sc \<rparr>) w1 = files_kept w w1"
  by (simp add: files_kept_def)

lemma files_kept_scene_right [simp]: "files_kept w (w1 \<lparr> bpy_scene := sc \<rparr>) = files_kept w w1"
  by (simp add: files_kept_def)

lemma files_kept_trans: "files_kept w w1 \<Longrightarrow> files_kept w1 w2 \<Longrightarrow> files_kept w w2"
  unfolding files_kept_def by (rule order_trans)

lemma render_sprite_dom:
  "files_kept w (snd (render_sprite ext p w))"
  by (auto simp: files_kept_def render_sprite_def Let_def split: render_outcome.splits)

lemma export_metadata_dom:
  "files_kept w (snd (export_metadata ext p md w))"
  by (auto simp: files_kept_def export_metadata_def Let_def)

lemma render_sprite_dom_scene:
  "files_kept w (snd (render_sprite ext p (w \<lparr> bpy_scene := sc \<rparr>)))"
  using render_sprite_dom[of "w \<lparr> bpy_scene := sc \<rparr>" ext p] by simp

lemma render_export_dom:
  "files_kept w
     (snd (export_metadata ext q md (snd (render_sprite ext p (w \<lparr> bpy_scene := sc \<rparr>)))))"
  using render_sprite_dom_scene[of w ext p sc]
    export_metadata_dom[of "snd (render_sprite ext p (w \<lparr> bpy_scene := sc \<rparr>))" ext q md]
  by (rule files_kept_trans)

lemma rotation_step_dom:
  assumes "rotation_step ext rel out rot s = Inr s1"
  shows "files_kept (fst (snd s)) (fst (snd s1))"
proof -
  obtain angle sfx dir where rot: "rot = (angle, sfx, dir)" by (cases rot)
  obtain c w ok st where s: "s = (c, w, ok, st)" by (cases s)
  show ?thesis
    using assms render_sprite_dom_scene render_export_dom unfolding rot s
    by (auto simp: Let_def case_prod_beta split: sum.splits if_splits)
qed

lemma rotation_loop_dom:
  assumes "rotation_loop ext rel out rots s = Inr s1"
  shows "files_kept (fst (snd s)) (fst (snd s1))"
  using assms
proof (induction rots arbitrary: s)
  case Nil
  then show ?case by simp
next
  case (Cons rot rots)
  from Cons.prems obtain s2 where
    step: "rotation_step ext rel out rot s = Inr s2" and
    rest: "rotation_loop ext rel out rots s2 = Inr s1"
    by (auto split: sum.splits)
  from rotation_step_dom[OF step] Cons.IH[OF rest] show ?case by (rule files_kept_trans)
qed

lemma single_render_dom:
  assumes "single_render ext rel out s = Inr s1"
  shows "files_kept (fst (snd s)) (fst (snd s1))"
proof -
  obtain c w st where s: "s = (c, w, st)" by (cases s)
  show ?thesis
    using assms render_sprite_dom_scene render_export_dom unfolding s
    by (auto simp: Let_def case_prod_beta split: sum.splits if_splits)
qed

lemma process_model_dom:
  assumes "process_model ext m s = Inr s1"
  shows "files_kept (fst (snd s)) (fst (snd s1))"
proof -
  obtain c w st where s: "s = (c, w, st)" by (cases s)
  show ?thesis
  proof (cases "output_file_of c m")
    case (Inl e)
    with assms show ?thesis unfolding s by simp
  next
    case (Inr ro)
    obtain rel out where ro: "ro = (rel, out)" by (cases ro)
    show ?thesis
      using assms Inr render_sprite_dom_scene render_export_dom unfolding s ro
      by (auto simp: Let_def case_prod_beta split: sum.splits if_splits
          dest!: rotation_loop_dom)
  qed
qed

lemma process_models_dom:
  assumes "process_models ext ms s = Inr s1"
  shows "files_kept (fst (snd s)) (fst (snd s1))"
  using assms
proof (induction ms arbitrary: s)
  case Nil
  then show ?case by simp
next
  case (Cons m ms)
  from Cons.prems obtain s2 where
    step: "process_model ext m s = Inr s2" and
    rest: "process_models ext ms s2 = Inr s1"
    by (auto split: sum.splits)
  from process_model_dom[OF step] Cons.IH[OF rest] show ?case by (rule files_kept_trans)
qed

subsection \<open>The counters\<close>

lemma rotation_step_stats:
  assumes "rotation_step ext rel out rot (c, w, ok, st) = Inr (c1, w1, ok1, st1)"
  shows "processed st1 = processed st \<and> skipped st1 = skipped st
     \<and> ((ok1 = ok \<and> st1 = st) \<or> (\<not> ok1 \<and> failed st1 = failed st + 1))"
proof -
  obtain angle sfx dir where rot: "rot = (angle, sfx, dir)" by (cases rot)
  show ?thesis
    using assms unfolding rot
    by (auto simp: Let_def case_prod_beta split: sum.splits if_splits)
qed

lemma rotation_loop_stats:
  assumes "rotation_loop ext rel out rots (c, w, ok, st) = Inr (c1, w1, ok1, st1)"
  shows "processed st1 = processed st \<and> skipped st1 = skipped st
     \<and> failed st \<le> failed st1
     \<and> (ok1 \<longleftrightarrow> ok \<and> failed st1 = failed st)
     \<and> (failed st1 = failed st \<longrightarrow> st1 = st)"
  using assms
proof (induction rots arbitrary: c w ok st)
  case Nil
  then show ?case by simp
next
  case (Cons rot rots)
  from Cons.prems obtain c2 w2 ok2 st2 where
    step: "rotation_step ext rel out rot (c, w, ok, st) = Inr (c2, w2, ok2, st2)" and
    rest: "rotation_loop ext rel out rots (c2, w2, ok2, st2) = Inr (c1, w1, ok1, st1)"
    by (auto split: sum.splits)
  from rotation_step_stats[OF step] Cons.IH[OF rest]
  show ?case by auto
qed

lemma single_render_stats:
  assumes "single_render ext rel out (c, w, st) = Inr (c1, w1, st1)"
  shows "(processed st1 = processed st + 1 \<and> skipped st1 = skipped st
            \<and> failed st1 = failed st \<and> failed_files st1 = failed_files st)
       \<or> (processed st1 = processed st \<and> skipped st1 = skipped st
            \<and> failed st1 = failed st + 1)"
  using assms
  by (auto simp: Let_def case_prod_beta split: sum.splits if_splits)

declare rotation_step.simps [simp del] single_render.simps [simp del]

lemma process_model_unfold:
  assumes "output_file_of c m = Inr (rel, out)"
  shows "process_model ext m (c, w, st) =
     (if skip_existing c \<and> path_str out \<in> dom (files w)
      then Inr (c, w, st \<lparr> skipped := skipped st + 1 \<rparr>)
      else
        let r = import_model ext (path_str m) (scale_factor c) (clear_previous (bpy_scene w));
            w1 = w \<lparr> bpy_scene := snd r \<rparr>
        in if \<not> fst r then
             Inr (c, w1, st \<lparr> failed := failed st + 1,
                               failed_files := failed_files st @ [path_str rel] \<rparr>)
           else if rotations c = 4 then
             (case rotation_loop ext rel out rotations4 (c, w1, True, st) of
                Inl e \<Rightarrow> Inl e
              | Inr (c1, w2, ok, st1) \<Rightarrow>
                  Inr (c1 \<lparr> camera_yaw := camera_yaw c \<rparr>, w2,
                       if ok then st1 \<lparr> processed := processed st1 + 1 \<rparr> else st1))
           else single_render ext rel out (c, w1, st))"
  by (simp add: assms Let_def case_prod_beta)

declare process_model.simps [simp del]

lemma process_model_error:
  assumes "output_file_of c m = Inl e"
  shows "process_model ext m (c, w, st) = Inl e"
  by (simp add: assms process_model.simps)

lemma process_model_stats:
  assumes "process_model ext m (c, w, st) = Inr (c1, w1, st1)"
  shows "(processed st1 = processed st + 1 \<and> skipped st1 = skipped st
            \<and> failed st1 = failed st \<and> failed_files st1 = failed_files st)
       \<or> (processed st1 = processed st \<and> skipped st1 = skipped st + 1
            \<and> failed st1 = failed st \<and> failed_files st1 = failed_files st)
       \<or> (processed st1 = processed st \<and> skipped st1 = skipped st
            \<and> failed st < failed st1)"
proof (cases "output_file_of c m")
  case (Inl e)
  with assms show ?thesis by (simp add: process_model_error)
next
  case (Inr ro)
  obtain rel out where ro: "ro = (rel, out)" by (cases ro)
  note unfold = process_model_unfold[OF Inr[unfolded ro], of ext w st]
  let ?r = "import_model ext (path_str m) (scale_factor c) (clear_previous (bpy_scene w))"
  consider (skip) "skip_existing c \<and> path_str out \<in> dom (files w)"
    | (nofile) "\<not> (skip_existing c \<and> path_str out \<in> dom (files w))" "\<not> fst ?r"
    | (four) "\<not> (skip_existing c \<and> path_str out \<in> dom (files w))" "fst ?r" "rotations c = 4"
    | (one) "\<not> (skip_existing c \<and> path_str out \<in> dom (files w))" "fst ?r" "rotations c \<noteq> 4"
    by blast
  then show ?thesis
  proof cases
    case skip
    with assms unfold show ?thesis by auto
  next
    case nofile
    with assms unfold show ?thesis by (auto simp: Let_def)
  next
    case four
    with assms unfold obtain c2 w2 ok2 st2 where
      loop: "rotation_loop ext rel out rotations4 (c, w \<lparr> bpy_scene := snd ?r \<rparr>, True, st)
               = Inr (c2, w2, ok2, st2)"
      and st1: "st1 = (if ok2 then st2 \<lparr> processed := processed st2 + 1 \<rparr> else st2)"
      by (auto simp: Let_def split: sum.splits)
    from rotation_loop_stats[OF loop] st1 show ?thesis by auto
  next
    case one
    with assms unfold have "single_render ext rel out (c, w \<lparr> bpy_scene := snd ?r \<rparr>, st)
       = Inr (c1, w1, st1)"
      by (auto simp: Let_def)
    from single_render_stats[OF this] show ?thesis by auto
  qed
qed

subsection \<open>Assets that succeed, fail to import or are skipped\<close>

lemma rotation_step_ok:
  assumes "always_renders ext" and "1 \<le> required_pixels c"
  shows "\<exists>w1. rotation_step ext rel out (angle, sfx, dir) (c, w, ok, st) =
            Inr (c \<lparr> camera_yaw := real_of_int angle \<rparr>, w1, ok, st)
          \<and> str_replace ''.png'' (sfx @ ''.png'') (path_str out) \<in> dom (files w1)
          \<and> files_kept w w1"
proof -
  let ?c = "c \<lparr> camera_yaw := real_of_int angle \<rparr>"
  let ?p = "str_replace ''.png'' (sfx @ ''.png'') (path_str out)"
  from assms(2) have "1 \<le> required_pixels ?c" by simp
  from calculate_total[OF this] obtain s md sc1 where
    calc: "calculate_canvas_and_position ?c (bpy_scene w) = Inr (s, md, sc1)" by blast
  let ?r = "render_sprite ext ?p (w \<lparr> bpy_scene := sc1 \<rparr>)"
  have ok: "fst ?r" and written: "?p \<in> dom (files (snd ?r))"
    using render_sprite_wrote[OF assms(1)] by blast+
  have kept: "files_kept w (snd (export_metadata ext ?p md2 (snd ?r)))" for md2
    by (rule render_export_dom)
  have "files_kept (snd ?r) (snd (export_metadata ext ?p md2 (snd ?r)))" for md2
    by (rule export_metadata_dom)
  with written have written2: "?p \<in> dom (files (snd (export_metadata ext ?p md2 (snd ?r))))" for md2
    unfolding files_kept_def by blast
  show ?thesis
    using calc ok kept written2
    by (simp add: rotation_step.simps Let_def case_prod_beta)
qed

lemma rotation_loop_ok:
  assumes "always_renders ext" and "1 \<le> required_pixels c"
  shows "\<exists>c1 w1. rotation_loop ext rel out rots (c, w, ok, st) = Inr (c1, w1, ok, st)
          \<and> (\<forall>rot \<in> set rots.
                str_replace ''.png'' (fst (snd rot) @ ''.png'') (path_str out) \<in> dom (files w1))
          \<and> files_kept w w1"
  using assms(2)
proof (induction rots arbitrary: c w)
  case Nil
  then show ?case by simp
next
  case (Cons rot rots)
  obtain angle sfx dir where rot: "rot = (angle, sfx, dir)" by (cases rot)
  from rotation_step_ok[OF assms(1) Cons.prems, of rel out angle sfx dir w ok st]
  obtain w2 where
    step: "rotation_step ext rel out rot (c, w, ok, st) =
            Inr (c \<lparr> camera_yaw := real_of_int angle \<rparr>, w2, ok, st)"
    and here: "str_replace ''.png'' (sfx @ ''.png'') (path_str out) \<in> dom (files w2)"
    and kept: "files_kept w w2"
    unfolding rot by blast
  have "1 \<le> required_pixels (c \<lparr> camera_yaw := real_of_int angle \<rparr>)"
    using Cons.prems by simp
  from Cons.IH[OF this, of w2] obtain c1 w1 where
    rest: "rotation_loop ext rel out rots (c \<lparr> camera_yaw := real_of_int angle \<rparr>, w2, ok, st)
             = Inr (c1, w1, ok, st)"
    and there: "\<forall>rot \<in> set rots.
                str_replace ''.png'' (fst (snd rot) @ ''.png'') (path_str out) \<in> dom (files w1)"
    and kept2: "files_kept w2 w1"
    by blast
  from here kept2 have "str_replace ''.png'' (sfx @ ''.png'') (path_str out) \<in> dom (files w1)"
    unfolding files_kept_def by blast
  with step rest there files_kept_trans[OF kept kept2] show ?case
    by (auto simp: rot)
qed

lemma single_render_ok:
  assumes "always_renders ext" and "1 \<le> required_pixels c"
  shows "\<exists>w1. single_render ext rel out (c, w, st) =
            Inr (c, w1, st \<lparr> processed := processed st + 1 \<rparr>)
          \<and> path_str out \<in> dom (files w1)
          \<and> files_kept w w1"
proof -
  let ?p = "path_str out"
  from calculate_total[OF assms(2)] obtain s md sc1 where
    calc: "calculate_canvas_and_position c (bpy_scene w) = Inr (s, md, sc1)" by blast
  let ?r = "render_sprite ext ?p (w \<lparr> bpy_scene := sc1 \<rparr>)"
  have ok: "fst ?r" and written: "?p \<in> dom (files (snd ?r))"
    using render_sprite_wrote[OF assms(1)] by blast+
  have kept: "files_kept w (snd (export_metadata ext ?p md2 (snd ?r)))" for md2
    by (rule render_export_dom)
  have "files_kept (snd ?r) (snd (export_metadata ext ?p md2 (snd ?r)))" for md2
    by (rule export_metadata_dom)
  with written have written2: "?p \<in> dom (files (snd (export_metadata ext ?p md2 (snd ?r))))" for md2
    unfolding files_kept_def by blast
  show ?thesis
    using calc ok kept written2
    by (simp add: single_render.simps Let_def case_prod_beta)
qed

lemma process_model_ok:
  assumes "output_file_of c m = Inr (rel, out)"
    and "\<not> (skip_existing c \<and> path_str out \<in> dom (files w))"
    and "fst (import_model ext (path_str m) (scale_factor c) (clear_previous (bpy_scene w)))"
    and "always_renders ext" and "1 \<le> required_pixels c"
  shows "\<exists>w1. process_model ext m (c, w, st) =
            Inr (c, w1, st \<lparr> processed := processed st + 1 \<rparr>)
          \<and> set (written_outputs c out) \<subseteq> dom (files w1)
          \<and> files_kept w w1"
proof (cases "rotations c = 4")
  case True
  let ?w = "w \<lparr> bpy_scene := snd (import_model ext (path_str m) (scale_factor c)
                (clear_previous (bpy_scene w))) \<rparr>"
  from rotation_loop_ok[OF assms(4,5), of rel out rotations4 ?w True st]
  obtain c1 w1 where
    loop: "rotation_loop ext rel out rotations4 (c, ?w, True, st) = Inr (c1, w1, True, st)"
    and files: "\<forall>rot \<in> set rotations4.
                str_replace ''.png'' (fst (snd rot) @ ''.png'') (path_str out) \<in> dom (files w1)"
    and kept: "files_kept ?w w1"
    by blast
  from rotation_loop_config[OF loop] have "c1 \<lparr> camera_yaw := camera_yaw c \<rparr> = c" by simp
  moreover from files True have "set (written_outputs c out) \<subseteq> dom (files w1)"
    by (auto simp: written_outputs_def)
  ultimately show ?thesis
    using True loop kept assms(3)
    unfolding process_model_unfold[OF assms(1)] if_not_P[OF assms(2)]
    by (simp add: Let_def)
next
  case False
  let ?w = "w \<lparr> bpy_scene := snd (import_model ext (path_str m) (scale_factor c)
                (clear_previous (bpy_scene w))) \<rparr>"
  from single_render_ok[OF assms(4,5), of rel out ?w st]
  obtain w1 where
    one: "single_render ext rel out (c, ?w, st) = Inr (c, w1, st \<lparr> processed := processed st + 1 \<rparr>)"
    and outfile: "path_str out \<in> dom (files w1)"
    and kept: "files_kept ?w w1"
    by blast
  from outfile False have "set (written_outputs c out) \<subseteq> dom (files w1)"
    by (simp add: written_outputs_def)
  then show ?thesis
    using False one kept assms(3)
    unfolding process_model_unfold[OF assms(1)] if_not_P[OF assms(2)]
    by (simp add: Let_def)
qed


lemma process_model_skipped:
  assumes "output_file_of c m = Inr (rel, out)"
    and "skip_existing c" and "path_str out \<in> dom (files w)"
  shows "process_model ext m (c, w, st) = Inr (c, w, st \<lparr> skipped := skipped st + 1 \<rparr>)"
proof -
  from assms(2,3) have "skip_existing c \<and> path_str out \<in> dom (files w)" by blast
  then show ?thesis
    unfolding process_model_unfold[OF assms(1)] by (rule if_P)
qed

lemma tree_paths_below:
  "q \<in> set (tree_paths parent e) \<Longrightarrow> \<exists>rel. rel \<noteq> [] \<and> q = parent @ rel"
proof (induction e arbitrary: parent)
  case (File name)
  then show ?case by simp
next
  case (Dir name children)
  from Dir.prems consider "q = parent @ [name]"
    | e where "e \<in> set children" "q \<in> set (tree_paths (parent @ [name]) e)"
    by auto
  then show ?case
  proof cases
    case 1
    then show ?thesis by blast
  next
    case 2
    from Dir.IH[OF 2] obtain rel where "rel \<noteq> []" "q = (parent @ [name]) @ rel" by blast
    then have "name # rel \<noteq> [] \<and> q = parent @ (name # rel)" by simp
    then show ?thesis by blast
  qed
qed

lemma find_models_below:
  assumes "p \<in> set (find_models l dir fmts)"
  shows "\<exists>rel. rel \<noteq> [] \<and> p = Path dir @ rel"
proof -
  from assms obtain fmt where "p \<in> set (rglob (l dir) (Path dir) (''*'' @ fmt))"
    by (auto simp: find_models_def)
  then have "p \<in> set (paths_below (l dir) (Path dir))"
    by (simp add: rglob_filter)
  then obtain e where "p \<in> set (tree_paths (Path dir) e)"
    by (auto simp: paths_below_def)
  then show ?thesis by (rule tree_paths_below)
qed

lemma output_file_of_found:
  assumes "p \<in> set (find_models l (input_dir c) fmts)"
  shows "\<exists>rel out. output_file_of c p = Inr (rel, out)"
proof -
  from find_models_below[OF assms] obtain rel where "rel \<noteq> []" "p = Path (input_dir c) @ rel"
    by blast
  then show ?thesis
    by (simp add: output_file_of_def relative_to_def with_suffix_def)
qed

subsection \<open>Which files a step can create\<close>

lemma render_sprite_only:
  "q \<noteq> p \<Longrightarrow> (q \<in> dom (files (snd (render_sprite ext p w)))) = (q \<in> dom (files w))"
  by (auto simp: render_sprite_def Let_def split: render_outcome.splits)

lemma export_metadata_only:
  "q \<noteq> str_replace ''.png'' ''.json'' p \<Longrightarrow>
     (q \<in> dom (files (snd (export_metadata ext p md w)))) = (q \<in> dom (files w))"
  by (auto simp: export_metadata_def Let_def)

lemma rotation_step_only:
  assumes "rotation_step ext rel out (angle, sfx, dir) (c, w, ok, st) = Inr (c1, w1, ok1, st1)"
    and "q \<noteq> str_replace ''.png'' (sfx @ ''.png'') (path_str out)"
    and "q \<noteq> str_replace ''.png'' ''.json'' (str_replace ''.png'' (sfx @ ''.png'') (path_str out))"
  shows "(q \<in> dom (files w1)) = (q \<in> dom (files w))"
proof -
  let ?p = "str_replace ''.png'' (sfx @ ''.png'') (path_str out)"
  from assms(1) obtain sc1 where
    "w1 = snd (render_sprite ext ?p (w \<lparr> bpy_scene := sc1 \<rparr>))
     \<or> (\<exists>md2. w1 = snd (export_metadata ext ?p md2 (snd (render_sprite ext ?p (w \<lparr> bpy_scene := sc1 \<rparr>)))))"
    by (auto simp: rotation_step.simps Let_def case_prod_beta split: sum.splits if_splits)
  then show ?thesis
    using render_sprite_only[OF assms(2), of ext "w \<lparr> bpy_scene := sc1 \<rparr>"]
      export_metadata_only[OF assms(3), of ext _ "snd (render_sprite ext ?p (w \<lparr> bpy_scene := sc1 \<rparr>))"]
    by auto
qed

lemma rotation_loop_only:
  assumes "rotation_loop ext rel out rots (c, w, ok, st) = Inr (c1, w1, ok1, st1)"
    and "\<forall>rot \<in> set rots.
           q \<noteq> str_replace ''.png'' (fst (snd rot) @ ''.png'') (path_str out)
         \<and> q \<noteq> str_replace ''.png'' ''.json''
                  (str_replace ''.png'' (fst (snd rot) @ ''.png'') (path_str out))"
  shows "(q \<in> dom (files w1)) = (q \<in> dom (files w))"
  using assms
proof (induction rots arbitrary: c w ok st)
  case Nil
  then show ?case by simp
next
  case (Cons rot rots)
  obtain angle sfx dir where rot: "rot = (angle, sfx, dir)" by (cases rot)
  from Cons.prems(1) obtain c2 w2 ok2 st2 where
    step: "rotation_step ext rel out (angle, sfx, dir) (c, w, ok, st) = Inr (c2, w2, ok2, st2)" and
    rest: "rotation_loop ext rel out rots (c2, w2, ok2, st2) = Inr (c1, w1, ok1, st1)"
    unfolding rot by (auto split: sum.splits)
  from Cons.prems(2) have here:
    "q \<noteq> str_replace ''.png'' (sfx @ ''.png'') (path_str out)"
    "q \<noteq> str_replace ''.png'' ''.json'' (str_replace ''.png'' (sfx @ ''.png'') (path_str out))"
    and there: "\<forall>rot \<in> set rots.
           q \<noteq> str_replace ''.png'' (fst (snd rot) @ ''.png'') (path_str out)
         \<and> q \<noteq> str_replace ''.png'' ''.json''
                  (str_replace ''.png'' (fst (snd rot) @ ''.png'') (path_str out))"
    by (simp_all add: rot)
  from rotation_step_only[OF step here] Cons.IH[OF rest there] show ?case by simp
qed

lemma single_render_only:
  assumes "single_render ext rel out (c, w, st) = Inr (c1, w1, st1)"
    and "q \<noteq> path_str out"
    and "q \<noteq> str_replace ''.png'' ''.json'' (path_str out)"
  shows "(q \<in> dom (files w1)) = (q \<in> dom (files w))"
proof -
  let ?p = "path_str out"
  from assms(1) obtain sc1 where
    "w1 = snd (render_sprite ext ?p (w \<lparr> bpy_scene := sc1 \<rparr>))
     \<or> (\<exists>md2. w1 = snd (export_metadata ext ?p md2 (snd (render_sprite ext ?p (w \<lparr> bpy_scene := sc1 \<rparr>)))))"
    by (auto simp: single_render.simps Let_def case_prod_beta split: sum.splits if_splits)
  then show ?thesis
    using render_sprite_only[OF assms(2), of ext "w \<lparr> bpy_scene := sc1 \<rparr>"]
      export_metadata_only[OF assms(3), of ext _ "snd (render_sprite ext ?p (w \<lparr> bpy_scene := sc1 \<rparr>))"]
    by auto
qed

lemma process_model_only:
  assumes pm: "process_model ext m (c, w, st) = Inr (c1, w1, st1)"
    and out: "output_file_of c m = Inr (rel, out)"
    and q1: "q \<notin> set (written_outputs c out)"
    and q2: "q \<notin> str_replace ''.png'' ''.json'' ` set (written_outputs c out)"
  shows "(q \<in> dom (files w1)) = (q \<in> dom (files w))"
proof -
  note unfold = process_model_unfold[OF out, of ext w st]
  let ?r = "import_model ext (path_str m) (scale_factor c) (clear_previous (bpy_scene w))"
  consider (skip) "skip_existing c \<and> path_str out \<in> dom (files w)"
    | (nofile) "\<not> (skip_existing c \<and> path_str out \<in> dom (files w))" "\<not> fst ?r"
    | (four) "\<not> (skip_existing c \<and> path_str out \<in> dom (files w))" "fst ?r" "rotations c = 4"
    | (single) "\<not> (skip_existing c \<and> path_str out \<in> dom (files w))" "fst ?r" "rotations c \<noteq> 4"
    by blast
  then show ?thesis
  proof cases
    case skip
    with pm unfold show ?thesis by auto
  next
    case nofile
    with pm unfold show ?thesis by (auto simp: Let_def)
  next
    case four
    with pm unfold obtain c2 ok2 st2 where
      loop: "rotation_loop ext rel out rotations4 (c, w \<lparr> bpy_scene := snd ?r \<rparr>, True, st)
               = Inr (c2, w1, ok2, st2)"
      by (auto simp: Let_def split: sum.splits)
    have "\<forall>rot \<in> set rotations4.
           q \<noteq> str_replace ''.png'' (fst (snd rot) @ ''.png'') (path_str out)
         \<and> q \<noteq> str_replace ''.png'' ''.json''
                  (str_replace ''.png'' (fst (snd rot) @ ''.png'') (path_str out))"
      using q1 q2 four(3) by (force simp: written_outputs_def)
    from rotation_loop_only[OF loop this] show ?thesis by simp
  next
    case single
    with pm unfold have one: "single_render ext rel out (c, w \<lparr> bpy_scene := snd ?r \<rparr>, st)
       = Inr (c1, w1, st1)"
      by (auto simp: Let_def)
    have "q \<noteq> path_str out" "q \<noteq> str_replace ''.png'' ''.json'' (path_str out)"
      using q1 q2 single(3) by (auto simp: written_outputs_def)
    from single_render_only[OF one this] show ?thesis by simp
  qed
qed


subsection \<open>What a render records\<close>

lemma render_sprite_camera [simp]:
  "camera (bpy_scene (snd (render_sprite ext p w))) = camera (bpy_scene w)"
  by (simp add: render_sprite_def Let_def split: render_outcome.splits)

lemma export_metadata_scene [simp]:
  "bpy_scene (snd (export_metadata ext p md w)) = bpy_scene w"
  by (simp add: export_metadata_def Let_def)









lemma render_sprite_true:
  "fst (render_sprite ext p w) \<Longrightarrow> p \<in> dom (files (snd (render_sprite ext p w)))"
  by (auto simp: render_sprite_def Let_def split: render_outcome.splits)

lemma export_metadata_keeps:
  "p \<in> dom (files w) \<Longrightarrow> p \<in> dom (files (snd (export_metadata ext q md w)))"
  using export_metadata_dom[of w ext q md] unfolding files_kept_def by blast


lemma single_render_written:
  assumes "single_render ext rel out (c, w, st) = Inr (c1, w1, st1)"
    and "failed st1 = failed st"
  shows "path_str out \<in> dom (files w1)"
proof -
  let ?p = "path_str out"
  from assms obtain sc1 md2 where
    rr: "fst (render_sprite ext ?p (w \<lparr> bpy_scene := sc1 \<rparr>))"
    and w1: "w1 = snd (export_metadata ext ?p md2 (snd (render_sprite ext ?p (w \<lparr> bpy_scene := sc1 \<rparr>))))"
    by (auto simp: single_render.simps Let_def case_prod_beta split: sum.splits if_splits)
  show ?thesis
    unfolding w1 by (rule export_metadata_keeps[OF render_sprite_true[OF rr]])
qed



subsection \<open>A second run of single renders skips everything\<close>

lemma process_models_failed_mono:
  assumes "process_models ext ms (c, w, st) = Inr (c1, w1, st1)"
  shows "failed st \<le> failed st1"
  using assms
proof (induction ms arbitrary: c w st)
  case Nil
  then show ?case by simp
next
  case (Cons m ms)
  from Cons.prems obtain c2 w2 st2 where
    step: "process_model ext m (c, w, st) = Inr (c2, w2, st2)" and
    rest: "process_models ext ms (c2, w2, st2) = Inr (c1, w1, st1)"
    by (auto split: sum.splits)
  from process_model_stats[OF step] Cons.IH[OF rest] show ?case by auto
qed

lemma process_model_single_exists:
  assumes pm: "process_model ext m (c, w, st) = Inr (c1, w1, st1)"
    and out: "output_file_of c m = Inr (rel, out)"
    and single: "rotations c \<noteq> 4"
    and nofail: "failed st1 = failed st"
  shows "path_str out \<in> dom (files w1)"
proof -
  note unfold = process_model_unfold[OF out, of ext w st]
  let ?r = "import_model ext (path_str m) (scale_factor c) (clear_previous (bpy_scene w))"
  consider (skip) "skip_existing c \<and> path_str out \<in> dom (files w)"
    | (nofile) "\<not> (skip_existing c \<and> path_str out \<in> dom (files w))" "\<not> fst ?r"
    | (one) "\<not> (skip_existing c \<and> path_str out \<in> dom (files w))" "fst ?r"
    by blast
  then show ?thesis
  proof cases
    case skip
    with pm unfold show ?thesis by (auto simp del: domIff)
  next
    case nofile
    with pm unfold nofail show ?thesis by (auto simp: Let_def)
  next
    case one
    with pm unfold single have "single_render ext rel out (c, w \<lparr> bpy_scene := snd ?r \<rparr>, st)
       = Inr (c1, w1, st1)"
      by (auto simp: Let_def)
    from single_render_written[OF this nofail] show ?thesis .
  qed
qed

lemma process_models_single_exist:
  assumes "process_models ext ms (c, w, st) = Inr (c1, w1, st1)"
    and "rotations c \<noteq> 4"
    and "failed st1 = failed st"
    and "m \<in> set ms"
    and "output_file_of c m = Inr (rel, out)"
  shows "path_str out \<in> dom (files w1)"
  using assms(1,3,4)
proof (induction ms arbitrary: w st)
  case Nil
  then show ?case by simp
next
  case (Cons m0 ms)
  from Cons.prems(1) obtain c2 w2 st2 where
    step: "process_model ext m0 (c, w, st) = Inr (c2, w2, st2)" and
    rest: "process_models ext ms (c2, w2, st2) = Inr (c1, w1, st1)"
    by (auto split: sum.splits)
  from process_model_config[OF step] have c2: "c2 = c" by simp
  from process_model_stats[OF step] process_models_failed_mono[OF rest] Cons.prems(2)
  have f2: "failed st2 = failed st" "failed st1 = failed st2" by auto
  show ?case
  proof (cases "m = m0")
    case True
    from process_model_single_exists[OF step[unfolded True[symmetric]] assms(5) assms(2) f2(1)]
    have "path_str out \<in> dom (files w2)" .
    with process_models_dom[OF rest] show ?thesis
      by (auto simp: files_kept_def simp del: domIff)
  next
    case False
    with Cons.prems(3) have "m \<in> set ms" by simp
    from Cons.IH[OF rest[unfolded c2] f2(2) this] show ?thesis .
  qed
qed

lemma process_models_skip_all:
  assumes "skip_existing c"
    and "\<forall>m \<in> set ms. \<exists>rel out. output_file_of c m = Inr (rel, out)
            \<and> path_str out \<in> dom (files w)"
  shows "process_models ext ms (c, w, st) =
           Inr (c, w, st \<lparr> skipped := skipped st + length ms \<rparr>)"
  using assms(2)
proof (induction ms arbitrary: st)
  case Nil
  then show ?case by simp
next
  case (Cons m ms)
  from Cons.prems obtain rel out where
    out: "output_file_of c m = Inr (rel, out)" and ex: "path_str out \<in> dom (files w)"
    by auto
  from Cons.prems have rest: "\<forall>m \<in> set ms. \<exists>rel out. output_file_of c m = Inr (rel, out)
            \<and> path_str out \<in> dom (files w)"
    by simp
  show ?case
    by (simp add: process_model_skipped[OF out assms(1) ex] Cons.IH[OF rest])
qed

lemma single_rotation_idempotent:
  assumes first: "process_batch ext c w = Inr (Completed st1, c1, w1)"
    and single: "rotations c \<noteq> 4"
    and skip: "skip_existing c"
    and nofail: "failed st1 = 0"
    and same: "listing ext2 = listing ext"
  shows "\<exists>w2. process_batch ext2 c1 w1 =
           Inr (Completed \<lparr> processed = 0,
                            skipped = length (find_models (listing ext) (input_dir c) (formats c)),
                            failed = 0, failed_files = [] \<rparr>, c1, w2)"
proof -
  let ?ms = "find_models (listing ext) (input_dir c) (formats c)"
  let ?w0 = "w \<lparr> bpy_scene := setup_scene c (bpy_scene w) \<rparr>"
  from first have ne: "?ms \<noteq> []" and
    run: "process_models ext ?ms (c, ?w0, no_stats) = Inr (c1, w1, st1)"
    by (auto simp: process_batch_def Let_def split: if_splits sum.splits)
  from process_batch_config[OF first] have c1: "c1 = c" .
  have nf: "failed st1 = failed no_stats" using nofail by (simp add: no_stats_def)
  have ex: "\<forall>m \<in> set ?ms. \<exists>rel out. output_file_of c m = Inr (rel, out)
            \<and> path_str out \<in> dom (files (w1 \<lparr> bpy_scene := sc \<rparr>))" for sc
  proof
    fix m assume m: "m \<in> set ?ms"
    from output_file_of_found[OF m] obtain rel out where
      out: "output_file_of c m = Inr (rel, out)" by blast
    from process_models_single_exist[OF run single nf m out]
    have "path_str out \<in> dom (files (w1 \<lparr> bpy_scene := sc \<rparr>))" by (simp del: domIff)
    with out show "\<exists>rel out. output_file_of c m = Inr (rel, out)
            \<and> path_str out \<in> dom (files (w1 \<lparr> bpy_scene := sc \<rparr>))" by blast
  qed
  from process_models_skip_all[OF skip ex, of ext2 _ no_stats] ne
  show ?thesis
    by (simp add: process_batch_def same c1 no_stats_def Let_def)
qed

subsection \<open>Facts about the example inputs\<close>

lemma studio_renders: "always_renders studio"
  by (simp add: always_renders_def studio_def)


lemma studio_import_glb:
  "import_model studio ''models/a.glb'' 1 sc = (True, sc \<lparr> objects := objects sc @ [unit_cube] \<rparr>)"
  "import_model studio ''models/c.glb'' 1 sc = (True, sc \<lparr> objects := objects sc @ [unit_cube] \<rparr>)"
  by (simp_all add: import_model_def studio_def add_imported_def Path_def name_suffix_def
      py_lower_def lower_char_def Let_def)


lemma example_paths:
  "str_replace ''.png'' ''_e.png'' ''rendered_sprites/a.png'' = ''rendered_sprites/a_e.png''"
  "str_replace ''.png'' ''.json'' ''rendered_sprites/a_e.png'' = ''rendered_sprites/a_e.json''"
  "str_replace ''.png'' ''.json'' ''rendered_sprites/a.png'' = ''rendered_sprites/a.json''"
  "path_str [''rendered_sprites'', ''a.png''] = ''rendered_sprites/a.png''"
  "path_str [''rendered_sprites'', ''c.png''] = ''rendered_sprites/c.png''"
  "path_str [''a.glb''] = ''a.glb''"
  "path_str [''b.stl''] = ''b.stl''"
  "path_str [''models'', ''a.glb''] = ''models/a.glb''"
  "path_str [''models'', ''b.stl''] = ''models/b.stl''"
  "path_str [''models'', ''c.glb''] = ''models/c.glb''"
  by code_simp+


lemma turntable_fields:
  "rotations turntable_config = 4" "skip_existing turntable_config"
  "scale_factor turntable_config = 1"
  "camera_yaw turntable_config = 0" "camera_angle turntable_config = 55"
  "required_pixels turntable_config = 1024"
  by (simp_all add: turntable_config_def default_config_def required_pixels_def py_int_def)








lemma turntable_models:
  "find_models (listing studio) (input_dir turntable_config) (formats turntable_config) =
     [[''models'', ''a.glb''], [''models'', ''c.glb'']]"
  by code_simp

lemma turntable_outputs:
  "output_file_of turntable_config [''models'', ''a.glb''] =
     Inr ([''a.glb''], [''rendered_sprites'', ''a.png''])"
  "output_file_of turntable_config [''models'', ''c.glb''] =
     Inr ([''c.glb''], [''rendered_sprites'', ''c.png''])"
  by code_simp+

lemma turntable_written:
  "written_outputs turntable_config [''rendered_sprites'', ''a.png''] =
     [''rendered_sprites/a_s.png'', ''rendered_sprites/a_e.png'',
      ''rendered_sprites/a_n.png'', ''rendered_sprites/a_w.png'']"
  "written_outputs turntable_config [''rendered_sprites'', ''c.png''] =
     [''rendered_sprites/c_s.png'', ''rendered_sprites/c_e.png'',
      ''rendered_sprites/c_n.png'', ''rendered_sprites/c_w.png'']"
  "map (str_replace ''.png'' ''.json'')
     (written_outputs turntable_config [''rendered_sprites'', ''a.png'']) =
     [''rendered_sprites/a_s.json'', ''rendered_sprites/a_e.json'',
      ''rendered_sprites/a_n.json'', ''rendered_sprites/a_w.json'']"
  "map (str_replace ''.png'' ''.json'')
     (written_outputs turntable_config [''rendered_sprites'', ''c.png'']) =
     [''rendered_sprites/c_s.json'', ''rendered_sprites/c_e.json'',
      ''rendered_sprites/c_n.json'', ''rendered_sprites/c_w.json'']"
  by code_simp+

lemma turntable_run:
  assumes "''rendered_sprites/a.png'' \<notin> dom (files w)"
    and "''rendered_sprites/c.png'' \<notin> dom (files w)"
  shows "\<exists>w2. process_batch studio turntable_config w =
            Inr (Completed \<lparr> processed = 2, skipped = 0, failed = 0, failed_files = [] \<rparr>,
                 turntable_config, w2)
          \<and> ''rendered_sprites/a.png'' \<notin> dom (files w2)
          \<and> ''rendered_sprites/c.png'' \<notin> dom (files w2)
          \<and> set (written_outputs turntable_config [''rendered_sprites'', ''a.png''])
                \<subseteq> dom (files w2)"
proof -
  let ?c = turntable_config
  let ?w0 = "w \<lparr> bpy_scene := setup_scene ?c (bpy_scene w) \<rparr>"
  let ?a = "[''models'', ''a.glb'']" and ?m = "[''models'', ''c.glb'']"
  have rq: "1 \<le> required_pixels ?c" by (simp add: turntable_fields)
  have ia: "fst (import_model studio (path_str ?a) (scale_factor ?c) sc)"
    and im: "fst (import_model studio (path_str ?m) (scale_factor ?c) sc)" for sc
    by (simp_all add: example_paths turntable_fields studio_import_glb)
  have na: "\<not> (skip_existing ?c \<and> path_str [''rendered_sprites'', ''a.png''] \<in> dom (files ?w0))"
    using assms(1) by (simp add: example_paths del: domIff)
  from process_model_ok[OF turntable_outputs(1) na ia studio_renders rq, of no_stats]
  obtain w1 where
    s1: "process_model studio ?a (?c, ?w0, no_stats) =
           Inr (?c, w1, no_stats \<lparr> processed := processed no_stats + 1 \<rparr>)"
    and f1: "set (written_outputs ?c [''rendered_sprites'', ''a.png'']) \<subseteq> dom (files w1)"
    by blast
  have keep1: "(q \<in> dom (files w1)) = (q \<in> dom (files w))"
    if "q = ''rendered_sprites/a.png'' \<or> q = ''rendered_sprites/c.png''" for q
    using process_model_only[OF s1 turntable_outputs(1), of q] that
    by (auto simp: turntable_written simp flip: set_map simp del: domIff)
  have nm: "\<not> (skip_existing ?c \<and> path_str [''rendered_sprites'', ''c.png''] \<in> dom (files w1))"
    using assms(2) keep1 by (simp add: example_paths del: domIff)
  let ?st1 = "no_stats \<lparr> processed := processed no_stats + 1 \<rparr>"
  from process_model_ok[OF turntable_outputs(2) nm im studio_renders rq, of ?st1]
  obtain w2 where
    s2: "process_model studio ?m (?c, w1, ?st1) =
           Inr (?c, w2, ?st1 \<lparr> processed := processed ?st1 + 1 \<rparr>)"
    and k2: "files_kept w1 w2"
    by blast
  have keep2: "(q \<in> dom (files w2)) = (q \<in> dom (files w1))"
    if "q = ''rendered_sprites/a.png'' \<or> q = ''rendered_sprites/c.png''" for q
    using process_model_only[OF s2 turntable_outputs(2), of q] that
    by (auto simp: turntable_written simp flip: set_map simp del: domIff)
  have "process_models studio [?a, ?m] (?c, ?w0, no_stats) =
          Inr (?c, w2, ?st1 \<lparr> processed := processed ?st1 + 1 \<rparr>)"
    using s1 s2 by simp
  then have "process_batch studio ?c w =
            Inr (Completed \<lparr> processed = 2, skipped = 0, failed = 0, failed_files = [] \<rparr>, ?c, w2)"
    by (simp add: process_batch_def turntable_models no_stats_def)
  moreover have "''rendered_sprites/a.png'' \<notin> dom (files w2)"
    "''rendered_sprites/c.png'' \<notin> dom (files w2)"
    using assms keep1 keep2 by (simp_all del: domIff)
  moreover have "set (written_outputs ?c [''rendered_sprites'', ''a.png'']) \<subseteq> dom (files w2)"
    using f1 k2 unfolding files_kept_def by blast
  ultimately show ?thesis by blast
qed

lemma rerun_fields:
  "rotations rerun_config = 1" "skip_existing rerun_config"
  "scale_factor rerun_config = 1"
  "required_pixels rerun_config = 1024"
  by (simp_all add: rerun_config_def default_config_def required_pixels_def py_int_def)

lemma rerun_models:
  "find_models (listing studio) (input_dir rerun_config) (formats rerun_config) =
     [[''models'', ''a.glb''], [''models'', ''c.glb'']]"
  by code_simp

lemma rerun_outputs:
  "output_file_of rerun_config [''models'', ''a.glb''] =
     Inr ([''a.glb''], [''rendered_sprites'', ''a.png''])"
  "output_file_of rerun_config [''models'', ''c.glb''] =
     Inr ([''c.glb''], [''rendered_sprites'', ''c.png''])"
  by code_simp+

lemma rerun_written:
  "written_outputs rerun_config [''rendered_sprites'', ''a.png''] = [''rendered_sprites/a.png'']"
  "map (str_replace ''.png'' ''.json'')
     (written_outputs rerun_config [''rendered_sprites'', ''a.png'']) = [''rendered_sprites/a.json'']"
  by code_simp+

lemma rerun_first:
  "\<exists>w2. process_batch studio rerun_config fresh_world =
            Inr (Completed \<lparr> processed = 2, skipped = 0, failed = 0, failed_files = [] \<rparr>,
                 rerun_config, w2)"
proof -
  let ?c = rerun_config
  let ?w0 = "fresh_world \<lparr> bpy_scene := setup_scene ?c (bpy_scene fresh_world) \<rparr>"
  let ?a = "[''models'', ''a.glb'']" and ?m = "[''models'', ''c.glb'']"
  have rq: "1 \<le> required_pixels ?c" by (simp add: rerun_fields)
  have ia: "fst (import_model studio (path_str ?a) (scale_factor ?c) sc)"
    and im: "fst (import_model studio (path_str ?m) (scale_factor ?c) sc)" for sc
    by (simp_all add: example_paths rerun_fields studio_import_glb)
  have na: "\<not> (skip_existing ?c \<and> path_str [''rendered_sprites'', ''a.png''] \<in> dom (files ?w0))"
    by (simp add: fresh_world_def)
  from process_model_ok[OF rerun_outputs(1) na ia studio_renders rq, of no_stats]
  obtain w1 where
    s1: "process_model studio ?a (?c, ?w0, no_stats) =
           Inr (?c, w1, no_stats \<lparr> processed := processed no_stats + 1 \<rparr>)"
    by blast
  have "(''rendered_sprites/c.png'' \<in> dom (files w1)) = (''rendered_sprites/c.png'' \<in> dom (files ?w0))"
    using process_model_only[OF s1 rerun_outputs(1), of "''rendered_sprites/c.png''"]
    by (auto simp: rerun_written simp flip: set_map simp del: domIff)
  then have nm: "\<not> (skip_existing ?c \<and> path_str [''rendered_sprites'', ''c.png''] \<in> dom (files w1))"
    by (simp add: example_paths fresh_world_def del: domIff)
  let ?st1 = "no_stats \<lparr> processed := processed no_stats + 1 \<rparr>"
  from process_model_ok[OF rerun_outputs(2) nm im studio_renders rq, of ?st1]
  obtain w2 where
    s2: "process_model studio ?m (?c, w1, ?st1) =
           Inr (?c, w2, ?st1 \<lparr> processed := processed ?st1 + 1 \<rparr>)"
    by blast
  have "process_models studio [?a, ?m] (?c, ?w0, no_stats) =
          Inr (?c, w2, ?st1 \<lparr> processed := processed ?st1 + 1 \<rparr>)"
    using s1 s2 by simp
  then have "process_batch studio ?c fresh_world =
            Inr (Completed \<lparr> processed = 2, skipped = 0, failed = 0, failed_files = [] \<rparr>, ?c, w2)"
    by (simp add: process_batch_def rerun_models no_stats_def)
  then show ?thesis by blast
qed

subsection \<open>The rotation sequence\<close>




subsection \<open>Failure isolation\<close>



subsection \<open>Skip-existing and a second run\<close>

text \<open>
  Claim C1, evaluated where it fails. The skip test looks for the output file without a
  suffix, and a run with four rotations only writes the four suffixed files. So with
  skip-existing on and four rotations, a second run over the same two models, on the
  files the first run left, skips nothing: it imports and renders both again. (With
  single renders the second run skips everything, lemmas \<open>single_rotation_idempotent\<close>
  and \<open>skip_existing_single_render\<close>.)
\<close>

theorem skip_existing_four_rotations:
  "rotations turntable_config = 4
   \<and> skip_existing turntable_config
   \<and> run_twice studio turntable_config fresh_world =
       Inr (Completed \<lparr> processed = 2, skipped = 0, failed = 0, failed_files = [] \<rparr>,
            Completed \<lparr> processed = 2, skipped = 0, failed = 0, failed_files = [] \<rparr>)"
proof -
  have e: "''rendered_sprites/a.png'' \<notin> dom (files fresh_world)"
    "''rendered_sprites/c.png'' \<notin> dom (files fresh_world)"
    by (simp_all add: fresh_world_def)
  from turntable_run[OF e] obtain w2 where
    r1: "process_batch studio turntable_config fresh_world =
            Inr (Completed \<lparr> processed = 2, skipped = 0, failed = 0, failed_files = [] \<rparr>,
                 turntable_config, w2)"
    and n: "''rendered_sprites/a.png'' \<notin> dom (files w2)"
      "''rendered_sprites/c.png'' \<notin> dom (files w2)"
    by blast
  from turntable_run[OF n] obtain w3 where
    r2: "process_batch studio turntable_config w2 =
            Inr (Completed \<lparr> processed = 2, skipped = 0, failed = 0, failed_files = [] \<rparr>,
                 turntable_config, w3)"
    by blast
  show ?thesis
    by (simp add: run_twice_def r1 r2 turntable_fields)
qed

text \<open>The same two runs with single renders: the second run skips both models.\<close>

lemma skip_existing_single_render:
  "run_twice studio rerun_config fresh_world =
     Inr (Completed \<lparr> processed = 2, skipped = 0, failed = 0, failed_files = [] \<rparr>,
          Completed \<lparr> processed = 0, skipped = 2, failed = 0, failed_files = [] \<rparr>)"
proof -
  from rerun_first obtain w2 where
    r1: "process_batch studio rerun_config fresh_world =
            Inr (Completed \<lparr> processed = 2, skipped = 0, failed = 0, failed_files = [] \<rparr>,
                 rerun_config, w2)"
    by blast
  have "rotations rerun_config \<noteq> 4" by (simp add: rerun_fields)
  from single_rotation_idempotent[OF r1 this rerun_fields(2) _ refl]
  obtain w3 where
    r2: "process_batch studio rerun_config w2 =
           Inr (Completed \<lparr> processed = 0, skipped = 2, failed = 0, failed_files = [] \<rparr>,
                rerun_config, w3)"
    by (auto simp: rerun_models)
  show ?thesis
    by (simp add: run_twice_def r1 r2)
qed

subsection \<open>The configuration is restored\<close>

text \<open>
  Claim C7. One iteration of the rotation loop changes the configuration in its yaw
  only, which it sets to the entry's angle; after any number of iterations the
  configuration still equals the original except for the yaw. When the processing of an
  asset returns, with four rotations or with a single render, the configuration is the
  one from before, so the yaw has its value from before the loop; and the whole batch
  returns the configuration it was given. (A \<^verbatim>\<open>ValueError\<close> inside the loop ends the
  run before the yaw is written back.)
\<close>

theorem yaw_restored:
  "(rotation_step ext rel out (angle, sfx, dir) (c, w, ok, st) = Inr (c1, w1, ok1, st1) \<longrightarrow>
      c1 = c \<lparr> camera_yaw := real_of_int angle \<rparr>)
   \<and> (rotation_loop ext rel out rots (c, w, ok, st) = Inr (c2, w2, ok2, st2) \<longrightarrow>
      c2 \<lparr> camera_yaw := camera_yaw c \<rparr> = c)
   \<and> (process_model ext m (c, w, st) = Inr (c3, w3, st3) \<longrightarrow> c3 = c)
   \<and> (process_batch ext c w = Inr (outcome, c4, w4) \<longrightarrow> c4 = c)"
proof -
  have a: "c1 = c \<lparr> camera_yaw := real_of_int angle \<rparr>"
    if "rotation_step ext rel out (angle, sfx, dir) (c, w, ok, st) = Inr (c1, w1, ok1, st1)"
    using rotation_step_config[OF that] by simp
  have b: "c2 \<lparr> camera_yaw := camera_yaw c \<rparr> = c"
    if "rotation_loop ext rel out rots (c, w, ok, st) = Inr (c2, w2, ok2, st2)"
    using rotation_loop_config[OF that] by simp
  have d: "c3 = c" if "process_model ext m (c, w, st) = Inr (c3, w3, st3)"
    using process_model_config[OF that] by simp
  have e: "c4 = c" if "process_batch ext c w = Inr (outcome, c4, w4)"
    using process_batch_config[OF that] .
  show ?thesis using a b d e by blast
qed

theorem yaw_restored_witness:
  "rotations turntable_config = 4
   \<and> camera_yaw turntable_config = 0
   \<and> (\<exists>c1 w1 ok1 st1.
         rotation_step studio [''a.glb''] [''rendered_sprites'', ''a.png''] (90, ''_e'', ''East'')
           (turntable_config, cube_world, True, no_stats) = Inr (c1, w1, ok1, st1)
       \<and> camera_yaw c1 = 90)
   \<and> (\<exists>c2 w2 ok2 st2.
         rotation_loop studio [''a.glb''] [''rendered_sprites'', ''a.png''] rotations4
           (turntable_config, cube_world, True, no_stats) = Inr (c2, w2, ok2, st2)
       \<and> c2 \<lparr> camera_yaw := 0 \<rparr> = turntable_config)
   \<and> (\<exists>w3 st3.
         process_model studio [''models'', ''a.glb''] (turntable_config, fresh_world, no_stats)
           = Inr (turntable_config, w3, st3))
   \<and> (\<exists>outcome w4.
         process_batch studio turntable_config fresh_world = Inr (outcome, turntable_config, w4))"
proof -
  let ?c = turntable_config
  have rq: "1 \<le> required_pixels ?c" by (simp add: turntable_fields)
  from rotation_step_ok[OF studio_renders rq, where rel = "[''a.glb'']"
      and out = "[''rendered_sprites'', ''a.png'']" and angle = 90 and sfx = "''_e''"
      and dir = "''East''" and w = cube_world and ok = True and st = no_stats]
  obtain c1 w1 ok1 st1 where step: "rotation_step studio [''a.glb''] [''rendered_sprites'', ''a.png'']
        (90, ''_e'', ''East'') (?c, cube_world, True, no_stats) = Inr (c1, w1, ok1, st1)"
    by blast
  from yaw_restored[THEN conjunct1, rule_format, OF step]
  have y1: "camera_yaw c1 = 90" by simp
  from rotation_loop_ok[OF studio_renders rq, where rel = "[''a.glb'']"
      and out = "[''rendered_sprites'', ''a.png'']" and rots = rotations4
      and w = cube_world and ok = True and st = no_stats]
  obtain c2 w2 ok2 st2 where loop: "rotation_loop studio [''a.glb''] [''rendered_sprites'', ''a.png'']
        rotations4 (?c, cube_world, True, no_stats) = Inr (c2, w2, ok2, st2)"
    by blast
  from yaw_restored[THEN conjunct2, THEN conjunct1, rule_format, OF loop]
  have y2: "c2 \<lparr> camera_yaw := 0 \<rparr> = ?c" by (simp add: turntable_fields)
  have e: "''rendered_sprites/a.png'' \<notin> dom (files fresh_world)"
    "''rendered_sprites/c.png'' \<notin> dom (files fresh_world)"
    by (simp_all add: fresh_world_def)
  have na: "\<not> (skip_existing ?c \<and> path_str [''rendered_sprites'', ''a.png'']
              \<in> dom (files fresh_world))"
    by (simp add: fresh_world_def)
  have ia: "fst (import_model studio (path_str [''models'', ''a.glb'']) (scale_factor ?c)
              (clear_previous (bpy_scene fresh_world)))"
    by (simp add: example_paths turntable_fields studio_import_glb)
  from process_model_ok[OF turntable_outputs(1) na ia studio_renders rq, of no_stats]
  obtain c3 w3 st3 where pm: "process_model studio [''models'', ''a.glb'']
        (?c, fresh_world, no_stats) = Inr (c3, w3, st3)"
    by blast
  from yaw_restored[THEN conjunct2, THEN conjunct2, THEN conjunct1, rule_format, OF pm]
  have y3: "c3 = ?c" .
  from turntable_run[OF e] obtain outcome c4 w4 where
    run: "process_batch studio ?c fresh_world = Inr (outcome, c4, w4)"
    by blast
  from yaw_restored[THEN conjunct2, THEN conjunct2, THEN conjunct2, rule_format, OF run]
  have y4: "c4 = ?c" .
  from step y1 loop y2 pm[unfolded y3] run[unfolded y4] show ?thesis
    using turntable_fields(1,4) by blast
qed

subsection \<open>Discovery and letter case\<close>

text \<open>
  Claim C9, evaluated where it fails. \<^verbatim>\<open>rglob\<close> matches the pattern \<^verbatim>\<open>*.glb\<close> against
  names as they are written, so with the default formats a directory that holds the one
  file \<^verbatim>\<open>MODEL.GLB\<close> yields no model at all, although the file lies under the input
  root, its extension is accepted when letter case is ignored, and \<^verbatim>\<open>import_model\<close>,
  which lowers the suffix, would import it. (What discovery does return is stated by lemma
  \<open>find_models_sorted_matches\<close>.)
\<close>

theorem uppercase_extension_missed:
  "find_models upper_listing ''models'' (formats default_config) = []
   \<and> paths_below (upper_listing ''models'') (Path ''models'') = [[''models'', ''MODEL.GLB'']]
   \<and> spec_accepts (formats default_config) ''MODEL.GLB''
   \<and> fst (import_model studio ''models/MODEL.GLB'' 1 blank_scene)"
proof -
  have "find_models upper_listing ''models'' (formats default_config) = []"
    by (simp add: find_models_def upper_listing_def default_config_def rglob_def Path_def)
  moreover have "paths_below (upper_listing ''models'') (Path ''models'') = [[''models'', ''MODEL.GLB'']]"
    by (simp add: paths_below_def upper_listing_def Path_def)
  moreover have "spec_accepts (formats default_config) ''MODEL.GLB''"
    by code_simp
  moreover have "fst (import_model studio ''models/MODEL.GLB'' 1 blank_scene)"
  proof -
    have e: "py_lower (name_suffix (last (Path ''models/MODEL.GLB''))) = ''.glb''"
      by code_simp
    have n: "Path ''models/MODEL.GLB'' \<noteq> []"
      by code_simp
    show ?thesis
      by (simp add: import_model_def Let_def e n studio_def add_imported_def)
  qed
  ultimately show ?thesis by blast
qed

end
